theory Spec2Isabelle
  imports Complex_Main
begin

section \<open>Request throttling (rest\_framework/throttling.py)\<close>

text \<open>
  A shallow embedding of the throttling policies. Timestamps are the values of
  \<^verbatim>\<open>time.time()\<close>; they are modelled as real numbers with exact arithmetic.
  Counts and window lengths are Python integers.
\<close>

subsection \<open>Python values and errors\<close>

datatype error = ImproperlyConfigured | ValueError | KeyError | IndexError | TypeError
  | AttributeError

text \<open>
  A throttling identity is \<^verbatim>\<open>request.user.pk\<close> (an integer), an address string, or
  \<^verbatim>\<open>None\<close> (no address found).
\<close>

datatype ident = IdInt int | IdStr string | IdNone

subsection \<open>The cache\<close>

text \<open>
  The Django cache maps a key to a value stored together with the timeout given to
  \<^verbatim>\<open>cache.set\<close>. A key that has expired is a key that is absent from \<open>entries\<close>.
  \<^verbatim>\<open>cache.get\<close> returns a copy of the stored list, so popping from the list that was
  read does not change the cache. Every call of the cache is recorded in \<open>ops\<close>, in
  the order of the calls.
\<close>

datatype cache_op = Get string | Set string "real list" int

record cache =
  entries :: "string \<rightharpoonup> (real list \<times> int)"
  ops :: "cache_op list"

definition cache_get :: "cache \<Rightarrow> string \<Rightarrow> real list \<times> cache" where
  \<comment> \<open>\<^verbatim>\<open>cache.get(key, [])\<close>\<close>
  "cache_get c k =
     ((case entries c k of None \<Rightarrow> [] | Some (h, ttl) \<Rightarrow> h),
      c\<lparr>ops := ops c @ [Get k]\<rparr>)"

definition cache_set :: "cache \<Rightarrow> string \<Rightarrow> real list \<Rightarrow> int \<Rightarrow> cache" where
  \<comment> \<open>\<^verbatim>\<open>cache.set(key, value, timeout)\<close>\<close>
  "cache_set c k h ttl =
     c\<lparr>entries := (entries c)(k \<mapsto> (h, ttl)), ops := ops c @ [Set k h ttl]\<rparr>"

subsection \<open>Dropping expired entries\<close>

text \<open>
  \<^verbatim>\<open>while history and history[-1] <= now - duration: history.pop()\<close>
\<close>

function drop_expired :: "real \<Rightarrow> int \<Rightarrow> real list \<Rightarrow> real list" where
  "drop_expired t d h =
     (if h \<noteq> [] \<and> last h \<le> t - real_of_int d then drop_expired t d (butlast h) else h)"
  by pat_completeness auto
termination
  by (relation "measure (\<lambda>(t, d, h). length h)") auto

declare drop_expired.simps [simp del]

subsection \<open>SimpleRateThrottle\<close>

text \<open>
  The attributes of a throttle instance. \<open>num_requests\<close> and \<open>duration\<close> are the
  integers that \<^verbatim>\<open>parse_rate\<close> returned for \<open>rate\<close>; when \<open>rate\<close> is \<^verbatim>\<open>None\<close>
  they are not read by \<^verbatim>\<open>allow_request\<close>.
\<close>

record simple_throttle =
  rate :: "string option"
  num_requests :: int
  duration :: int
  key :: "string option"
  history :: "real list"
  now :: real

definition throttle_success :: "simple_throttle \<Rightarrow> string \<Rightarrow> cache \<Rightarrow> bool \<times> simple_throttle \<times> cache" where
  "throttle_success self k c =
     (let self' = self\<lparr>history := now self # history self\<rparr>
      in (True, self', cache_set c k (history self') (duration self')))"

definition throttle_failure :: "simple_throttle \<Rightarrow> cache \<Rightarrow> bool \<times> simple_throttle \<times> cache" where
  "throttle_failure self c = (False, self, c)"

text \<open>
  \<^verbatim>\<open>SimpleRateThrottle.allow_request\<close>. The second argument is the result of
  \<^verbatim>\<open>self.get_cache_key(request, view)\<close>, the third the value of \<^verbatim>\<open>self.timer()\<close>.
\<close>

definition SimpleRateThrottle_allow_request ::
  "simple_throttle \<Rightarrow> string option \<Rightarrow> real \<Rightarrow> cache \<Rightarrow> bool \<times> simple_throttle \<times> cache" where
  "SimpleRateThrottle_allow_request self cache_key t c =
     (if rate self = None then (True, self, c)
      else
        (case cache_key of
           None \<Rightarrow> (True, self\<lparr>key := None\<rparr>, c)
         | Some k \<Rightarrow>
             (let (h, c1) = cache_get c k;
                  self1 = self\<lparr>key := Some k, history := drop_expired t (duration self) h, now := t\<rparr>
              in if int (length (history self1)) \<ge> num_requests self1
                 then throttle_failure self1 c1
                 else throttle_success self1 k c1)))"

definition SimpleRateThrottle_wait :: "simple_throttle \<Rightarrow> real option" where
  "SimpleRateThrottle_wait self =
     (let remaining_duration =
            (if history self \<noteq> []
             then real_of_int (duration self) - (now self - last (history self))
             else real_of_int (duration self));
          available_requests = num_requests self - int (length (history self)) + 1
      in if available_requests \<le> 0 then None
         else Some (remaining_duration / real_of_int available_requests))"

subsection \<open>Strings\<close>

definition is_space :: "char \<Rightarrow> bool" where
  \<comment> \<open>the characters below 256 for which \<^verbatim>\<open>str.isspace\<close> holds\<close>
  "is_space ch =
     (let n = (of_char ch :: nat)
      in (9 \<le> n \<and> n \<le> 13) \<or> (28 \<le> n \<and> n \<le> 32) \<or> n = 133 \<or> n = 160)"

definition strip :: "string \<Rightarrow> string" where
  \<comment> \<open>\<^verbatim>\<open>s.strip()\<close>\<close>
  "strip s = rev (dropWhile is_space (rev (dropWhile is_space s)))"

fun split_sep :: "char \<Rightarrow> string \<Rightarrow> string list" where
  \<comment> \<open>\<^verbatim>\<open>s.split(sep)\<close> for a separator of one character\<close>
  "split_sep sep [] = [[]]"
| "split_sep sep (ch # cs) =
     (if ch = sep then [] # split_sep sep cs
      else (case split_sep sep cs of
              [] \<Rightarrow> [[ch]]
            | w # ws \<Rightarrow> (ch # w) # ws))"

fun split_ws_from :: "string \<Rightarrow> string \<Rightarrow> string list" where
  \<comment> \<open>\<^verbatim>\<open>s.split()\<close>: the maximal runs of characters that are not whitespace;
      the first argument is the run read so far\<close>
  "split_ws_from w [] = (if w = [] then [] else [w])"
| "split_ws_from w (ch # cs) =
     (if is_space ch
      then (if w = [] then split_ws_from [] cs else w # split_ws_from [] cs)
      else split_ws_from (w @ [ch]) cs)"

definition split_ws :: "string \<Rightarrow> string list" where
  "split_ws s = split_ws_from [] s"

definition py_index :: "'a list \<Rightarrow> int \<Rightarrow> error + 'a" where
  \<comment> \<open>\<^verbatim>\<open>xs[i]\<close>: a negative index counts from the end\<close>
  "py_index xs i =
     (let len = int (length xs);
          j = (if i < 0 then len + i else i)
      in if 0 \<le> j \<and> j < len then Inr (xs ! nat j) else Inl IndexError)"

definition digit_of :: "char \<Rightarrow> nat option" where
  "digit_of ch =
     (let n = (of_char ch :: nat) in if 48 \<le> n \<and> n \<le> 57 then Some (n - 48) else None)"

fun py_digits :: "bool \<Rightarrow> nat \<Rightarrow> string \<Rightarrow> nat option" where
  \<comment> \<open>decimal digits, with single underscores allowed between two digits; the flag
      says that the previous character was a digit\<close>
  "py_digits prev acc [] = (if prev then Some acc else None)"
| "py_digits prev acc (ch # cs) =
     (if ch = CHR ''_''
      then (if prev \<and> cs \<noteq> [] then py_digits False acc cs else None)
      else (case digit_of ch of
              None \<Rightarrow> None
            | Some v \<Rightarrow> py_digits True (10 * acc + v) cs))"

definition is_int_space :: "char \<Rightarrow> bool" where
  \<comment> \<open>the characters below 256 that \<^verbatim>\<open>int\<close> accepts around the digits\<close>
  "is_int_space ch =
     (let n = (of_char ch :: nat)
      in (9 \<le> n \<and> n \<le> 13) \<or> n = 32 \<or> n = 133 \<or> n = 160)"

definition py_int :: "string \<Rightarrow> error + int" where
  \<comment> \<open>\<^verbatim>\<open>int(s)\<close> for a string of characters below 256\<close>
  "py_int s =
     (case rev (dropWhile is_int_space (rev (dropWhile is_int_space s))) of
        [] \<Rightarrow> Inl ValueError
      | ch # cs \<Rightarrow>
          (if ch = CHR ''-''
           then (case py_digits False 0 cs of None \<Rightarrow> Inl ValueError | Some n \<Rightarrow> Inr (- int n))
           else if ch = CHR ''+''
           then (case py_digits False 0 cs of None \<Rightarrow> Inl ValueError | Some n \<Rightarrow> Inr (int n))
           else (case py_digits False 0 (ch # cs) of None \<Rightarrow> Inl ValueError | Some n \<Rightarrow> Inr (int n))))"

function digits_of :: "nat \<Rightarrow> string" where
  "digits_of n =
     (if n < 10 then [char_of (48 + n)] else digits_of (n div 10) @ [char_of (48 + n mod 10)])"
  by pat_completeness auto
termination
  by (relation "measure (\<lambda>n. n)") auto

declare digits_of.simps [simp del]

definition str_int :: "int \<Rightarrow> string" where
  \<comment> \<open>\<^verbatim>\<open>str(i)\<close>\<close>
  "str_int i = (if i < 0 then CHR ''-'' # digits_of (nat (- i)) else digits_of (nat i))"

fun py_str :: "ident \<Rightarrow> string" where
  \<comment> \<open>the conversion \<^verbatim>\<open>%s\<close>\<close>
  "py_str (IdInt i) = str_int i"
| "py_str (IdStr s) = s"
| "py_str IdNone = ''None''"

subsection \<open>Requests and settings\<close>

text \<open>
  The parts of a request that the throttles read. \<open>client_ip\<close> is the value of
  \<^verbatim>\<open>get_ip(request)\<close> (package ipware).
\<close>

record request =
  HTTP_X_FORWARDED_FOR :: "string option"
  REMOTE_ADDR :: "string option"
  user_is_authenticated :: bool
  user_id :: int
  request_method :: string
  client_ip :: "string option"

datatype rates_setting = RatesNone | RatesStr string | RatesList "string option list" | RatesOther

datatype whitelist_entry = WInt int | WStr string | WOther

record settings =
  THROTTLE_RATES :: "string \<rightharpoonup> rates_setting"
  DEFAULT_THROTTLE_WHITELIST :: "whitelist_entry list"
  NUM_PROXIES :: "int option"

subsection \<open>BaseThrottle\<close>

definition get_ident :: "settings \<Rightarrow> request \<Rightarrow> error + string option" where
  "get_ident api_settings request =
     (let xff = HTTP_X_FORWARDED_FOR request;
          remote_addr = REMOTE_ADDR request
      in case NUM_PROXIES api_settings of
           Some num_proxies \<Rightarrow>
             (case xff of
                None \<Rightarrow> Inr remote_addr
              | Some x \<Rightarrow>
                  if num_proxies = 0 then Inr remote_addr
                  else
                    (let addrs = split_sep CHR '','' x
                     in case py_index addrs (- min num_proxies (int (length addrs))) of
                          Inl e \<Rightarrow> Inl e
                        | Inr client_addr \<Rightarrow> Inr (Some (strip client_addr))))
         | None \<Rightarrow>
             (case xff of
                None \<Rightarrow> Inr remote_addr
              | Some x \<Rightarrow> if x \<noteq> [] then Inr (Some (concat (split_ws x))) else Inr remote_addr))"

subsection \<open>Rate strings\<close>

definition period_seconds :: "char \<Rightarrow> int option" where
  \<comment> \<open>\<^verbatim>\<open>{'s': 1, 'm': 60, 'h': 3600, 'd': 86400}\<close>\<close>
  "period_seconds ch =
     (if ch = CHR ''s'' then Some 1
      else if ch = CHR ''m'' then Some 60
      else if ch = CHR ''h'' then Some 3600
      else if ch = CHR ''d'' then Some 86400
      else None)"

definition SimpleRateThrottle_parse_rate :: "string option \<Rightarrow> error + (int \<times> int) option" where
  \<comment> \<open>\<open>Inr None\<close> is the pair \<^verbatim>\<open>(None, None)\<close>\<close>
  "SimpleRateThrottle_parse_rate r =
     (case r of
        None \<Rightarrow> Inr None
      | Some s \<Rightarrow>
          (case split_sep CHR ''/'' s of
             [num, period] \<Rightarrow>
               (case py_int num of
                  Inl e \<Rightarrow> Inl e
                | Inr n \<Rightarrow>
                    (case period of
                       [] \<Rightarrow> Inl IndexError
                     | p # _ \<Rightarrow>
                         (case period_seconds p of
                            None \<Rightarrow> Inl KeyError
                          | Some d \<Rightarrow> Inr (Some (n, d)))))
           | _ \<Rightarrow> Inl ValueError))"

definition CommonThrottle_parse_rate :: "string option \<Rightarrow> error + (string \<times> int \<times> int) option" where
  "CommonThrottle_parse_rate r =
     (case r of
        None \<Rightarrow> Inr None
      | Some s \<Rightarrow>
          (case split_sep CHR ''/'' s of
             [num, period] \<Rightarrow>
               (case py_int num of
                  Inl e \<Rightarrow> Inl e
                | Inr n \<Rightarrow>
                    (case period of
                       [] \<Rightarrow> Inl IndexError
                     | p # _ \<Rightarrow>
                         (case period_seconds p of
                            None \<Rightarrow> Inl KeyError
                          | Some d \<Rightarrow> Inr (Some (s, n, d)))))
           | _ \<Rightarrow> Inl ValueError))"

subsection \<open>Cache keys\<close>

definition cache_format :: "string \<Rightarrow> ident \<Rightarrow> string" where
  \<comment> \<open>\<^verbatim>\<open>'throttle_%(scope)s_%(ident)s' % {'scope': scope, 'ident': ident}\<close>\<close>
  "cache_format scope ident = ''throttle_'' @ scope @ ''_'' @ py_str ident"

definition CommonThrottle_get_cache_key :: "ident \<Rightarrow> string \<Rightarrow> string \<Rightarrow> string" where
  \<comment> \<open>\<^verbatim>\<open>"throtte_%(scope)s_%(rate)s_%(ident)s" % {...}\<close>\<close>
  "CommonThrottle_get_cache_key ident scope rate_name =
     ''throtte_'' @ scope @ ''_'' @ rate_name @ ''_'' @ py_str ident"

subsection \<open>CommonThrottle\<close>

text \<open>
  \<^verbatim>\<open>all_matching_cidrs\<close> (package netaddr) is a parameter of the model: it returns
  the list of the given networks that contain the address, or raises
  \<^verbatim>\<open>AddrFormatError\<close> or \<^verbatim>\<open>ValueError\<close>, the two exceptions that
  \<^verbatim>\<open>is_whitelisted\<close> catches.
\<close>

datatype cidr_result = Matches "string list" | AddrFormatError

type_synonym matcher = "ident \<Rightarrow> string list \<Rightarrow> cidr_result"

fun CommonThrottle_is_whitelisted :: "matcher \<Rightarrow> whitelist_entry list \<Rightarrow> ident \<Rightarrow> bool" where
  "CommonThrottle_is_whitelisted all_matching_cidrs [] ident = False"
| "CommonThrottle_is_whitelisted all_matching_cidrs (whitelisted # rest) ident =
     (case whitelisted of
        WInt i \<Rightarrow>
          if IdInt i = ident then True
          else CommonThrottle_is_whitelisted all_matching_cidrs rest ident
      | WStr s \<Rightarrow>
          (case all_matching_cidrs ident [s] of
             Matches ms \<Rightarrow>
               if ms \<noteq> [] then True
               else CommonThrottle_is_whitelisted all_matching_cidrs rest ident
           | AddrFormatError \<Rightarrow> CommonThrottle_is_whitelisted all_matching_cidrs rest ident)
      | WOther \<Rightarrow> CommonThrottle_is_whitelisted all_matching_cidrs rest ident)"

definition CommonThrottle_get_scope :: "request \<Rightarrow> string" where
  "CommonThrottle_get_scope request =
     (let scope_prefix = (if user_is_authenticated request then ''user'' else ''anon'');
          scope_sufix = (if request_method request \<in> set [''POST'', ''PUT'', ''PATCH'', ''DELETE'']
                         then ''write'' else ''read'')
      in scope_prefix @ ''-'' @ scope_sufix)"

definition CommonThrottle_get_ident :: "request \<Rightarrow> ident" where
  "CommonThrottle_get_ident request =
     (if user_is_authenticated request then IdInt (user_id request)
      else (case client_ip request of None \<Rightarrow> IdNone | Some a \<Rightarrow> IdStr a))"

fun map_parse_rate :: "string option list \<Rightarrow> error + (string \<times> int \<times> int) option list" where
  \<comment> \<open>\<^verbatim>\<open>list(map(self.parse_rate, rates))\<close>: the first error ends the evaluation\<close>
  "map_parse_rate [] = Inr []"
| "map_parse_rate (r # rs) =
     (case CommonThrottle_parse_rate r of
        Inl e \<Rightarrow> Inl e
      | Inr x \<Rightarrow> (case map_parse_rate rs of Inl e \<Rightarrow> Inl e | Inr xs \<Rightarrow> Inr (x # xs)))"

definition CommonThrottle_get_rates ::
  "settings \<Rightarrow> string \<Rightarrow> error + (string \<times> int \<times> int) option list" where
  "CommonThrottle_get_rates api_settings scope =
     (case THROTTLE_RATES api_settings scope of
        None \<Rightarrow> Inl ImproperlyConfigured
      | Some RatesNone \<Rightarrow> Inr []
      | Some (RatesStr s) \<Rightarrow>
          (case CommonThrottle_parse_rate (Some s) of Inl e \<Rightarrow> Inl e | Inr x \<Rightarrow> Inr [x])
      | Some (RatesList rs) \<Rightarrow> map_parse_rate rs
      | Some RatesOther \<Rightarrow> Inl ImproperlyConfigured)"

definition CommonThrottle_wait_time :: "real list \<Rightarrow> string \<times> int \<times> int \<Rightarrow> real \<Rightarrow> real" where
  "CommonThrottle_wait_time h r t =
     (let rate_num_requests = fst (snd r);
          rate_duration = snd (snd r);
          remaining_duration =
            (if h \<noteq> [] then real_of_int rate_duration - (t - last h)
             else real_of_int rate_duration);
          available_requests = rate_num_requests - int (length h) + 1
      in if available_requests \<le> 0 then remaining_duration
         else remaining_duration / real_of_int available_requests)"

text \<open>
  The first loop of \<^verbatim>\<open>allow_request\<close>: it reads and prunes the history of every
  rate and collects the waits of the rates that deny and the writes to do. An entry
  \<^verbatim>\<open>None\<close> in the list of rates cannot be indexed.
\<close>

fun check_rates ::
  "ident \<Rightarrow> string \<Rightarrow> real \<Rightarrow> (string \<times> int \<times> int) option list \<Rightarrow> cache \<Rightarrow> real list \<Rightarrow>
   (string \<times> real list \<times> int) list \<Rightarrow>
   error + (real list \<times> (string \<times> real list \<times> int) list \<times> cache)" where
  "check_rates ident scope t [] c waits history_writes = Inr (waits, history_writes, c)"
| "check_rates ident scope t (None # rates) c waits history_writes = Inl TypeError"
| "check_rates ident scope t (Some (rate_name, rate_num_requests, rate_duration) # rates) c
       waits history_writes =
     (let k = CommonThrottle_get_cache_key ident scope rate_name;
          (h0, c1) = cache_get c k;
          h = drop_expired t rate_duration h0;
          waits1 = (if int (length h) \<ge> rate_num_requests
                    then waits @ [CommonThrottle_wait_time h (rate_name, rate_num_requests, rate_duration) t]
                    else waits)
      in check_rates ident scope t rates c1 waits1 (history_writes @ [(k, h, rate_duration)]))"

text \<open>The second loop: every history gets the current time in front and is stored.\<close>

fun write_histories :: "real \<Rightarrow> (string \<times> real list \<times> int) list \<Rightarrow> cache \<Rightarrow> cache" where
  "write_histories t [] c = c"
| "write_histories t ((k, h, rate_duration) # history_writes) c =
     write_histories t history_writes (cache_set c k (t # h) rate_duration)"

text \<open>The attribute \<^verbatim>\<open>_wait\<close> of a throttle instance; it is unset until a request is denied.\<close>

record common_throttle =
  wait_attr :: "real option"

definition CommonThrottle_allow_request ::
  "matcher \<Rightarrow> settings \<Rightarrow> common_throttle \<Rightarrow> request \<Rightarrow> real \<Rightarrow> cache \<Rightarrow>
   error + (bool \<times> common_throttle \<times> cache)" where
  "CommonThrottle_allow_request all_matching_cidrs api_settings self request t c =
     (let scope = CommonThrottle_get_scope request;
          ident = CommonThrottle_get_ident request
      in case CommonThrottle_get_rates api_settings scope of
           Inl e \<Rightarrow> Inl e
         | Inr rates \<Rightarrow>
             if CommonThrottle_is_whitelisted all_matching_cidrs
                  (DEFAULT_THROTTLE_WHITELIST api_settings) ident
             then Inr (True, self, c)
             else if rates = [] then Inr (True, self, c)
             else
               (case check_rates ident scope t rates c [] [] of
                  Inl e \<Rightarrow> Inl e
                | Inr (waits, history_writes, c1) \<Rightarrow>
                    (case waits of
                       w # ws \<Rightarrow> Inr (False, self\<lparr>wait_attr := Some (fold max ws w)\<rparr>, c1)
                     | [] \<Rightarrow> Inr (True, self, write_histories t history_writes c1))))"

definition CommonThrottle_wait :: "common_throttle \<Rightarrow> error + real" where
  "CommonThrottle_wait self = (case wait_attr self of None \<Rightarrow> Inl AttributeError | Some w \<Rightarrow> Inr w)"

subsection \<open>A matcher for dotted IPv4 addresses\<close>

text \<open>
  A model of \<^verbatim>\<open>all_matching_cidrs\<close> for IPv4 in dotted notation, to instantiate the
  parameter. An address string is four decimal octets without leading zeros; a network
  string is an address, alone or followed by a slash and a prefix length of at most 32.
  An integer identity is read as the address with that value, as netaddr reads an
  integer: below \<open>2 ^ 32\<close> it is an IPv4 address, from there and below \<open>2 ^ 128\<close> an
  IPv6 address, which no IPv4 network contains. A network contains the addresses that
  agree with it on the prefix. An identity or a network that does not parse raises the
  format error. IPv6 notation is not covered.
\<close>

fun decimal :: "nat \<Rightarrow> string \<Rightarrow> nat option" where
  "decimal acc [] = Some acc"
| "decimal acc (ch # cs) =
     (case digit_of ch of None \<Rightarrow> None | Some v \<Rightarrow> decimal (10 * acc + v) cs)"

definition parse_octet :: "string \<Rightarrow> nat option" where
  "parse_octet s =
     (case decimal 0 s of
        None \<Rightarrow> None
      | Some v \<Rightarrow> if v \<le> 255 \<and> digits_of v = s then Some v else None)"

definition parse_ipv4 :: "string \<Rightarrow> nat option" where
  "parse_ipv4 s =
     (case map parse_octet (split_sep CHR ''.'' s) of
        [Some a, Some b, Some c, Some d] \<Rightarrow> Some (((a * 256 + b) * 256 + c) * 256 + d)
      | _ \<Rightarrow> None)"

definition parse_network :: "string \<Rightarrow> (nat \<times> nat) option" where
  "parse_network s =
     (case split_sep CHR ''/'' s of
        [a] \<Rightarrow> (case parse_ipv4 a of None \<Rightarrow> None | Some ip \<Rightarrow> Some (ip, 32))
      | [a, p] \<Rightarrow>
          (case parse_ipv4 a of
             None \<Rightarrow> None
           | Some ip \<Rightarrow>
               if p = [] then None
               else (case decimal 0 p of
                       None \<Rightarrow> None
                     | Some n \<Rightarrow> if n \<le> 32 then Some (ip, n) else None))
      | _ \<Rightarrow> None)"

definition in_network :: "nat \<Rightarrow> nat \<times> nat \<Rightarrow> bool" where
  "in_network ip net = (ip div 2 ^ (32 - snd net) = fst net div 2 ^ (32 - snd net))"

datatype address = IPv4 nat | IPv6 nat

definition parse_ident :: "ident \<Rightarrow> address option" where
  "parse_ident ident =
     (case ident of
        IdStr s \<Rightarrow> (case parse_ipv4 s of None \<Rightarrow> None | Some ip \<Rightarrow> Some (IPv4 ip))
      | IdInt i \<Rightarrow>
          if 0 \<le> i \<and> i < 2 ^ 32 then Some (IPv4 (nat i))
          else if 2 ^ 32 \<le> i \<and> i < 2 ^ 128 then Some (IPv6 (nat i))
          else None
      | IdNone \<Rightarrow> None)"

fun address_in :: "address \<Rightarrow> nat \<times> nat \<Rightarrow> bool" where
  "address_in (IPv4 ip) net = in_network ip net"
| "address_in (IPv6 ip) net = False"

fun ipv4_matching :: "address \<Rightarrow> string list \<Rightarrow> cidr_result" where
  "ipv4_matching ip [] = Matches []"
| "ipv4_matching ip (cidr # cidrs) =
     (case parse_network cidr of
        None \<Rightarrow> AddrFormatError
      | Some net \<Rightarrow>
          (case ipv4_matching ip cidrs of
             AddrFormatError \<Rightarrow> AddrFormatError
           | Matches ms \<Rightarrow> Matches (if address_in ip net then cidr # ms else ms)))"

definition ipv4_all_matching_cidrs :: matcher where
  "ipv4_all_matching_cidrs ident cidrs =
     (case parse_ident ident of
        None \<Rightarrow> AddrFormatError
      | Some ip \<Rightarrow> ipv4_matching ip cidrs)"

section \<open>Notions of the specification\<close>

definition stored_history :: "cache \<Rightarrow> string \<Rightarrow> real list" where
  \<comment> \<open>the history stored under a key, empty when the key is absent\<close>
  "stored_history c k = (case entries c k of None \<Rightarrow> [] | Some (h, ttl) \<Rightarrow> h)"

definition prune_spec :: "real \<Rightarrow> int \<Rightarrow> real list \<Rightarrow> real list" where
  \<comment> \<open>drop the entries at the tail that are \<open>\<le> now - windowSeconds\<close>\<close>
  "prune_spec t w h = rev (dropWhile (\<lambda>x. x \<le> t - real_of_int w) (rev h))"

definition remaining_spec :: "int \<Rightarrow> real \<Rightarrow> real list \<Rightarrow> real" where
  \<comment> \<open>\<open>windowSeconds - (now - oldestRemainingEntry)\<close>, or \<open>windowSeconds\<close> for an empty history\<close>
  "remaining_spec w t h = (if h = [] then real_of_int w else real_of_int w - (t - last h))"

definition available_slots_spec :: "int \<Rightarrow> real list \<Rightarrow> int" where
  \<comment> \<open>\<open>count - len(history) + 1\<close>\<close>
  "available_slots_spec n h = n - int (length h) + 1"

text \<open>
  A number of requests issued at one instant \<open>t\<close> under one key, each evaluated by
  \<open>SimpleRateThrottle_allow_request\<close> on the cache the previous one left; the result
  lists the decisions in order.
\<close>

fun issue_requests ::
  "nat \<Rightarrow> simple_throttle \<Rightarrow> string \<Rightarrow> real \<Rightarrow> cache \<Rightarrow> bool list \<times> simple_throttle \<times> cache" where
  "issue_requests 0 self k t c = ([], self, c)"
| "issue_requests (Suc m) self k t c =
     (case SimpleRateThrottle_allow_request self (Some k) t c of
        (ok, self1, c1) \<Rightarrow>
          (case issue_requests m self1 k t c1 of
             (oks, self2, c2) \<Rightarrow> (ok # oks, self2, c2)))"

text \<open>
  A rate tier is a triple of the rate's name, its count and its window. For a tier,
  an identity, a scope and a cache: the key of the tier, its stored history pruned at
  time \<open>t\<close>, and whether the tier denies.
\<close>

type_synonym tier = "string \<times> int \<times> int"

definition tier_key :: "ident \<Rightarrow> string \<Rightarrow> tier \<Rightarrow> string" where
  "tier_key ident scope r = CommonThrottle_get_cache_key ident scope (fst r)"

definition tier_pruned :: "ident \<Rightarrow> string \<Rightarrow> real \<Rightarrow> cache \<Rightarrow> tier \<Rightarrow> real list" where
  "tier_pruned ident scope t c r =
     prune_spec t (snd (snd r)) (stored_history c (tier_key ident scope r))"

definition tier_denies :: "ident \<Rightarrow> string \<Rightarrow> real \<Rightarrow> cache \<Rightarrow> tier \<Rightarrow> bool" where
  "tier_denies ident scope t c r = (fst (snd r) \<le> int (length (tier_pruned ident scope t c r)))"

definition tier_wait :: "ident \<Rightarrow> string \<Rightarrow> real \<Rightarrow> cache \<Rightarrow> tier \<Rightarrow> real" where
  "tier_wait ident scope t c r = CommonThrottle_wait_time (tier_pruned ident scope t c r) r t"

text \<open>
  Whether a whitelist entry matches an identity, for a given matcher of networks.
\<close>

definition entry_matches :: "matcher \<Rightarrow> ident \<Rightarrow> whitelist_entry \<Rightarrow> bool" where
  "entry_matches all_matching_cidrs ident e =
     (case e of
        WInt i \<Rightarrow> ident = IdInt i
      | WStr s \<Rightarrow>
          (case all_matching_cidrs ident [s] of Matches ms \<Rightarrow> ms \<noteq> [] | AddrFormatError \<Rightarrow> False)
      | WOther \<Rightarrow> False)"

text \<open>
  The cache entries after every tier's pruned history, with \<open>t\<close> in front, has been
  stored under the tier's key with the tier's window as timeout, in the order of the
  tiers.
\<close>

definition committed_entries ::
  "ident \<Rightarrow> string \<Rightarrow> real \<Rightarrow> cache \<Rightarrow> tier list \<Rightarrow> (string \<rightharpoonup> (real list \<times> int))" where
  "committed_entries ident scope t c tiers =
     fold (\<lambda>r m. m(tier_key ident scope r \<mapsto> (t # tier_pruned ident scope t c r, snd (snd r))))
       tiers (entries c)"


text \<open>
  A request that an anonymous client at 10.1.2.3 makes with GET, and a cache in which
  the client has two requests, at the times 10 and 0, on record for two rate tiers.
\<close>

definition example_request :: request where
  "example_request =
     \<lparr>HTTP_X_FORWARDED_FOR = None, REMOTE_ADDR = Some ''10.1.2.3'',
      user_is_authenticated = False, user_id = 0, request_method = ''GET'',
      client_ip = Some ''10.1.2.3''\<rparr>"

definition example_settings :: settings where
  "example_settings =
     \<lparr>THROTTLE_RATES = [''anon-read'' \<mapsto> RatesList [Some ''2/min'', Some ''5/hour'']],
      DEFAULT_THROTTLE_WHITELIST = [WInt 7, WStr ''office'', WStr ''192.168.0.0/16''],
      NUM_PROXIES = None\<rparr>"

definition example_cache :: cache where
  "example_cache =
     \<lparr>entries = [''throtte_anon-read_2/min_10.1.2.3'' \<mapsto> ([10, 0], 60),
                 ''throtte_anon-read_5/hour_10.1.2.3'' \<mapsto> ([10, 0], 3600)],
      ops = []\<rparr>"

text \<open>
  Settings with one rate for anonymous reads and a whitelist that holds a user id, a
  string that is no network, and the network 10.0.0.0/8; and the same settings with
  no rate configured at all.
\<close>

definition whitelist_settings :: settings where
  "whitelist_settings =
     \<lparr>THROTTLE_RATES = [''anon-read'' \<mapsto> RatesStr ''2/min''],
      DEFAULT_THROTTLE_WHITELIST = [WInt 7, WStr ''office'', WStr ''10.0.0.0/8''],
      NUM_PROXIES = None\<rparr>"

definition unconfigured_settings :: settings where
  "unconfigured_settings = whitelist_settings\<lparr>THROTTLE_RATES := Map.empty\<rparr>"

text \<open>A string with all its whitespace removed.\<close>

definition remove_whitespace :: "string \<Rightarrow> string" where
  "remove_whitespace s = filter (\<lambda>ch. \<not> is_space ch) s"

text \<open>
  Settings with a given number of proxies, and a request that carries a forwarded
  header and the direct address 9.9.9.9.
\<close>

definition proxy_settings :: "int option \<Rightarrow> settings" where
  "proxy_settings n =
     \<lparr>THROTTLE_RATES = Map.empty, DEFAULT_THROTTLE_WHITELIST = [], NUM_PROXIES = n\<rparr>"

definition forwarded_request :: "string option \<Rightarrow> request" where
  "forwarded_request xff =
     \<lparr>HTTP_X_FORWARDED_FOR = xff, REMOTE_ADDR = Some ''9.9.9.9'',
      user_is_authenticated = False, user_id = 0, request_method = ''GET'',
      client_ip = Some ''9.9.9.9''\<rparr>"

text \<open>
  A throttle for the rate 2/min, and a cache that holds a given history under the key K.
\<close>

definition two_per_minute :: simple_throttle where
  "two_per_minute =
     \<lparr>rate = Some ''2/min'', num_requests = 2, duration = 60, key = None, history = [], now = 0\<rparr>"

definition cache_with :: "real list \<Rightarrow> cache" where
  "cache_with h = \<lparr>entries = [''K'' \<mapsto> (h, 60)], ops = []\<rparr>"

section \<open>Properties\<close>

lemma drop_expired_Nil [simp]: "drop_expired t d [] = []"
  by (simp add: drop_expired.simps)

lemma drop_expired_snoc:
  "drop_expired t d (h @ [x]) = (if x \<le> t - real_of_int d then drop_expired t d h else h @ [x])"
  by (subst drop_expired.simps) simp

lemma drop_expired_rev:
  "drop_expired t d h = rev (dropWhile (\<lambda>x. x \<le> t - real_of_int d) (rev h))"
  by (induction h rule: rev_induct) (simp_all add: drop_expired_snoc)

lemma drop_expired_keep:
  "h = [] \<or> t - real_of_int d < last h \<Longrightarrow> drop_expired t d h = h"
  by (subst drop_expired.simps) auto

lemma drop_expired_prune_spec: "drop_expired t d h = prune_spec t d h"
  by (simp add: prune_spec_def drop_expired_rev)

lemma dropWhile_sorted_filter:
  "sorted xs \<Longrightarrow> dropWhile (\<lambda>x. x \<le> a) xs = filter (\<lambda>x. a < x) (xs :: real list)"
proof (induction xs)
  case Nil
  then show ?case by simp
next
  case (Cons x xs)
  show ?case
  proof (cases "x \<le> a")
    case True
    with Cons show ?thesis by simp
  next
    case False
    with Cons.prems have "\<forall>y\<in>set xs. a < y" by auto
    then have "filter (\<lambda>x. a < x) xs = xs" by (simp add: filter_id_conv)
    with False show ?thesis by simp
  qed
qed

lemma prune_spec_sorted:
  "sorted (rev h) \<Longrightarrow> prune_spec t w h = filter (\<lambda>x. t - real_of_int w < x) h"
  by (simp add: prune_spec_def dropWhile_sorted_filter rev_filter [symmetric])

lemma allow_request_char:
  assumes "rate self \<noteq> None"
  shows "SimpleRateThrottle_allow_request self (Some k) t c =
     (let pruned = prune_spec t (duration self) (stored_history c k);
          self1 = self\<lparr>key := Some k, history := pruned, now := t\<rparr>
      in if num_requests self \<le> int (length pruned)
         then (False, self1, c\<lparr>ops := ops c @ [Get k]\<rparr>)
         else (True, self1\<lparr>history := t # pruned\<rparr>,
               \<lparr>entries = (entries c)(k \<mapsto> (t # pruned, duration self)),
                ops = ops c @ [Get k, Set k (t # pruned) (duration self)]\<rparr>))"
proof -
  from assms obtain r where r: "rate self = Some r" by auto
  show ?thesis
    by (simp add: SimpleRateThrottle_allow_request_def cache_get_def cache_set_def r
        throttle_failure_def throttle_success_def drop_expired_prune_spec stored_history_def Let_def)
qed


lemma prune_spec_replicate:
  "0 < w \<Longrightarrow> prune_spec t w (replicate j t) = replicate j t"
  by (simp add: prune_spec_def dropWhile_replicate)

lemma stored_history_ops [simp]: "stored_history (c\<lparr>ops := x\<rparr>) k = stored_history c k"
  by (simp add: stored_history_def)

lemma issue_requests_Suc_fst:
  "SimpleRateThrottle_allow_request self (Some k) t c = (ok, self1, c1) \<Longrightarrow>
   fst (issue_requests (Suc m) self k t c) = ok # fst (issue_requests m self1 k t c1)"
  by (simp split: prod.splits)

lemma issue_requests_replicate:
  assumes "rate self \<noteq> None" and "0 < duration self"
    and "stored_history c k = replicate j t" and "int j \<le> num_requests self"
  shows "fst (issue_requests m self k t c) =
           replicate (min m (nat (num_requests self) - j)) True @
           replicate (m - (nat (num_requests self) - j)) False"
  using assms
proof (induction m arbitrary: self c j)
  case 0
  then show ?case by simp
next
  case (Suc m)
  let ?n = "num_requests self"
  have pr: "prune_spec t (duration self) (stored_history c k) = replicate j t"
    using Suc.prems by (simp add: prune_spec_replicate)
  show ?case
  proof (cases "?n \<le> int j")
    case True
    define self1 where "self1 = self\<lparr>key := Some k, history := replicate j t, now := t\<rparr>"
    define c1 where "c1 = c\<lparr>ops := ops c @ [Get k]\<rparr>"
    have step: "SimpleRateThrottle_allow_request self (Some k) t c = (False, self1, c1)"
      using True pr Suc.prems(1) by (simp add: allow_request_char self1_def c1_def Let_def)
    have "fst (issue_requests m self1 k t c1) =
           replicate (min m (nat (num_requests self1) - j)) True @
           replicate (m - (nat (num_requests self1) - j)) False"
      by (rule Suc.IH) (use Suc.prems in \<open>simp_all add: self1_def c1_def\<close>)
    moreover have "nat ?n - j = 0" using True by simp
    moreover have "num_requests self1 = ?n" by (simp add: self1_def)
    ultimately show ?thesis
      by (simp add: issue_requests_Suc_fst [OF step] del: issue_requests.simps)
  next
    case False
    define self1 where
      "self1 = self\<lparr>key := Some k, history := t # replicate j t, now := t\<rparr>"
    define c1 where
      "c1 = \<lparr>entries = (entries c)(k \<mapsto> (t # replicate j t, duration self)),
             ops = ops c @ [Get k, Set k (t # replicate j t) (duration self)]\<rparr>"
    have step: "SimpleRateThrottle_allow_request self (Some k) t c = (True, self1, c1)"
      using False pr Suc.prems(1) by (simp add: allow_request_char self1_def c1_def Let_def)
    have "fst (issue_requests m self1 k t c1) =
           replicate (min m (nat (num_requests self1) - Suc j)) True @
           replicate (m - (nat (num_requests self1) - Suc j)) False"
      by (rule Suc.IH)
        (use Suc.prems False in \<open>simp_all add: self1_def c1_def stored_history_def\<close>)
    moreover have "num_requests self1 = ?n" by (simp add: self1_def)
    moreover have "j < nat ?n" using False by linarith
    then have "nat ?n - j = Suc (nat ?n - Suc j)" by arith
    ultimately show ?thesis
      by (simp add: issue_requests_Suc_fst [OF step] del: issue_requests.simps)
  qed
qed

lemma burst:
  assumes "rate self \<noteq> None" and "0 < duration self" and "0 \<le> num_requests self"
    and "entries c k = None"
  shows "fst (issue_requests (nat (num_requests self) + 1) self k t c) =
           replicate (nat (num_requests self)) True @ [False]"
proof -
  have "stored_history c k = replicate 0 t" using assms(4) by (simp add: stored_history_def)
  from issue_requests_replicate [OF assms(1,2) this, of "nat (num_requests self) + 1"] assms(3)
  show ?thesis by simp
qed

subsection \<open>Single-tier admission\<close>

text \<open>
  Claim C2. For a throttle with a rate and a cache key, \<open>SimpleRateThrottle_allow_request\<close>
  reads the stored history, drops the entries at its tail that are \<open>\<le> t - duration\<close>,
  denies exactly when the pruned length is at least \<open>num_requests\<close>, leaving the cache
  entries as they are, and otherwise puts \<open>t\<close> in front of the pruned history and stores
  it with the timeout \<open>duration\<close>. On a history sorted most recent first the pruning
  keeps exactly the entries inside the window. When \<open>num_requests + 1\<close> requests are
  issued at one instant under a key with no stored history, the first \<open>num_requests\<close>
  are admitted and the last one is denied.
\<close>

theorem single_tier_sliding_window:
  assumes "rate self \<noteq> None"
  shows "SimpleRateThrottle_allow_request self (Some k) t c =
           (let pruned = prune_spec t (duration self) (stored_history c k);
                self1 = self\<lparr>key := Some k, history := pruned, now := t\<rparr>
            in if num_requests self \<le> int (length pruned)
               then (False, self1, c\<lparr>ops := ops c @ [Get k]\<rparr>)
               else (True, self1\<lparr>history := t # pruned\<rparr>,
                     \<lparr>entries = (entries c)(k \<mapsto> (t # pruned, duration self)),
                      ops = ops c @ [Get k, Set k (t # pruned) (duration self)]\<rparr>))
         \<and> (sorted (rev h) \<longrightarrow>
                prune_spec t (duration self) h = filter (\<lambda>x. t - real_of_int (duration self) < x) h)
         \<and> (0 < duration self \<and> 0 \<le> num_requests self \<and> entries c0 k = None \<longrightarrow>
                fst (issue_requests (nat (num_requests self) + 1) self k t c0) =
                  replicate (nat (num_requests self)) True @ [False])"
  using allow_request_char [OF assms] prune_spec_sorted burst [OF assms] by blast

text \<open>The theorem at the rate 2/min: a request at \<open>t = 61\<close> on the history \<open>[10, 0]\<close>, and three
  requests at one instant on an empty cache.\<close>

theorem single_tier_sliding_window_witness:
  "rate \<lparr>rate = Some ''2/min'', num_requests = 2, duration = 60, key = None, history = [], now = 0\<rparr> \<noteq> None
   \<and> sorted (rev [10, 0 :: real])
   \<and> SimpleRateThrottle_allow_request
         \<lparr>rate = Some ''2/min'', num_requests = 2, duration = 60, key = None, history = [], now = 0\<rparr>
         (Some ''K'') 61 \<lparr>entries = [''K'' \<mapsto> ([10, 0], 60)], ops = []\<rparr>
       = (True,
          \<lparr>rate = Some ''2/min'', num_requests = 2, duration = 60, key = Some ''K'',
            history = [61, 10], now = 61\<rparr>,
          \<lparr>entries = [''K'' \<mapsto> ([61, 10], 60)], ops = [Get ''K'', Set ''K'' [61, 10] 60]\<rparr>)
   \<and> prune_spec 61 60 [10, 0] = [10]
   \<and> fst (issue_requests (Suc (Suc (Suc 0)))
         \<lparr>rate = Some ''2/min'', num_requests = 2, duration = 60, key = None, history = [], now = 0\<rparr>
         ''K'' 61 \<lparr>entries = Map.empty, ops = []\<rparr>) = [True, True, False]"
  using single_tier_sliding_window
    [of "\<lparr>rate = Some ''2/min'', num_requests = 2, duration = 60, key = None, history = [], now = 0\<rparr>"
        "''K''" 61 "\<lparr>entries = [''K'' \<mapsto> ([10, 0], 60)], ops = []\<rparr>" "[10, 0]"
        "\<lparr>entries = Map.empty, ops = []\<rparr>"]
  by (simp add: prune_spec_def stored_history_def Let_def numeral_2_eq_2)

subsection \<open>Wait times\<close>

text \<open>
  Claim C3. With \<open>remaining\<close> the window length minus the age of the oldest entry (the
  window length for an empty history) and \<open>availableSlots = count - len(history) + 1\<close>,
  \<open>SimpleRateThrottle_wait\<close> returns nothing when \<open>availableSlots \<le> 0\<close> and
  \<open>remaining / availableSlots\<close> otherwise, while \<open>CommonThrottle_wait_time\<close> returns
  \<open>remaining\<close> itself when \<open>availableSlots \<le> 0\<close> and the same quotient otherwise. On a
  denial, where the length is at least the count, the multi-tier wait is \<open>remaining\<close>.
\<close>

theorem wait_time_formulas:
  "SimpleRateThrottle_wait self =
     (if available_slots_spec (num_requests self) (history self) \<le> 0 then None
      else Some (remaining_spec (duration self) (now self) (history self) /
                 real_of_int (available_slots_spec (num_requests self) (history self))))
   \<and> CommonThrottle_wait_time h (name, n, w) t =
     (if available_slots_spec n h \<le> 0 then remaining_spec w t h
      else remaining_spec w t h / real_of_int (available_slots_spec n h))
   \<and> (n \<le> int (length h) \<longrightarrow> CommonThrottle_wait_time h (name, n, w) t = remaining_spec w t h)"
proof (intro conjI impI)
  show "SimpleRateThrottle_wait self =
     (if available_slots_spec (num_requests self) (history self) \<le> 0 then None
      else Some (remaining_spec (duration self) (now self) (history self) /
                 real_of_int (available_slots_spec (num_requests self) (history self))))"
    by (simp add: SimpleRateThrottle_wait_def available_slots_spec_def remaining_spec_def Let_def)
  show eq: "CommonThrottle_wait_time h (name, n, w) t =
     (if available_slots_spec n h \<le> 0 then remaining_spec w t h
      else remaining_spec w t h / real_of_int (available_slots_spec n h))"
    by (simp add: CommonThrottle_wait_time_def available_slots_spec_def remaining_spec_def Let_def)
  assume "n \<le> int (length h)"
  then have "available_slots_spec n h \<le> 0 \<or> available_slots_spec n h = 1"
    by (auto simp add: available_slots_spec_def)
  then show "CommonThrottle_wait_time h (name, n, w) t = remaining_spec w t h"
    by (auto simp add: eq)
qed

text \<open>The asymmetry on a history of three entries under the rate 2/min.\<close>

theorem wait_time_formulas_witness:
  "(2::int) \<le> int (length [10, 5, 0 :: real])
   \<and> SimpleRateThrottle_wait
        \<lparr>rate = Some ''2/min'', num_requests = 2, duration = 60, key = Some ''K'',
          history = [10, 5, 0], now = 15\<rparr> = None
   \<and> CommonThrottle_wait_time [10, 5, 0] (''2/min'', 2, 60) 15 = 45
   \<and> CommonThrottle_wait_time [10, 0] (''3/min'', 3, 60) 15 = 45 / 2"
  using wait_time_formulas
    [of "\<lparr>rate = Some ''2/min'', num_requests = 2, duration = 60, key = Some ''K'',
          history = [10, 5, 0], now = 15\<rparr>" "[10, 5, 0]" "''2/min''" 2 60 15]
    wait_time_formulas [of undefined "[10, 0]" "''3/min''" 3 60 15]
  by (simp add: available_slots_spec_def remaining_spec_def)

lemma parse_2min: "SimpleRateThrottle_parse_rate (Some ''2/min'') = Inr (Some (2, 60))"
  by (simp add: SimpleRateThrottle_parse_rate_def py_int_def is_int_space_def digit_of_def
      period_seconds_def)

subsection \<open>The scenario of the rate 2/min\<close>

text \<open>
  Claim C7, as amended. The rate string 2/min parses to two requests per 60 seconds.
  With the timestamps 10 and 0 stored under one key, a request at \<open>t = 15\<close> is denied,
  the cache entries stay as they are, and the wait is \<open>(60 - (15 - 0)) / 1 = 45\<close> seconds.
  A request at \<open>t = 61\<close> drops only the entry 0, so the pruned history is \<open>[10]\<close>; the
  request is admitted and \<open>[61, 10]\<close> is stored with the timeout 60.
\<close>

theorem two_per_minute_scenario:
  "SimpleRateThrottle_parse_rate (Some ''2/min'') = Inr (Some (2, 60))
   \<and> SimpleRateThrottle_allow_request
        \<lparr>rate = Some ''2/min'', num_requests = 2, duration = 60, key = None, history = [], now = 0\<rparr>
        (Some ''K'') 15 \<lparr>entries = [''K'' \<mapsto> ([10, 0], 60)], ops = []\<rparr>
       = (False,
          \<lparr>rate = Some ''2/min'', num_requests = 2, duration = 60, key = Some ''K'',
            history = [10, 0], now = 15\<rparr>,
          \<lparr>entries = [''K'' \<mapsto> ([10, 0], 60)], ops = [Get ''K'']\<rparr>)
   \<and> SimpleRateThrottle_wait
        \<lparr>rate = Some ''2/min'', num_requests = 2, duration = 60, key = Some ''K'',
          history = [10, 0], now = 15\<rparr> = Some 45
   \<and> drop_expired 61 60 [10, 0] = [10]
   \<and> SimpleRateThrottle_allow_request
        \<lparr>rate = Some ''2/min'', num_requests = 2, duration = 60, key = None, history = [], now = 0\<rparr>
        (Some ''K'') 61 \<lparr>entries = [''K'' \<mapsto> ([10, 0], 60)], ops = []\<rparr>
       = (True,
          \<lparr>rate = Some ''2/min'', num_requests = 2, duration = 60, key = Some ''K'',
            history = [61, 10], now = 61\<rparr>,
          \<lparr>entries = [''K'' \<mapsto> ([61, 10], 60)], ops = [Get ''K'', Set ''K'' [61, 10] 60]\<rparr>)"
  by (simp add: parse_2min allow_request_char prune_spec_def stored_history_def
      drop_expired_rev SimpleRateThrottle_wait_def Let_def)

text \<open>The wait at \<open>t = 15\<close> is not 50, and the history at \<open>t = 61\<close> is not pruned to empty.\<close>

theorem two_per_minute_scenario_counterexample:
  "SimpleRateThrottle_wait
     (fst (snd (SimpleRateThrottle_allow_request
        \<lparr>rate = Some ''2/min'', num_requests = 2, duration = 60, key = None, history = [], now = 0\<rparr>
        (Some ''K'') 15 \<lparr>entries = [''K'' \<mapsto> ([10, 0], 60)], ops = []\<rparr>))) \<noteq> Some 50
   \<and> drop_expired 61 60 [10, 0] \<noteq> []"
  by (simp add: allow_request_char prune_spec_def stored_history_def
      drop_expired_rev SimpleRateThrottle_wait_def Let_def)

subsection \<open>The multi-tier evaluator\<close>

lemma tier_pruned_ops [simp]: "tier_pruned ident scope t (c\<lparr>ops := x\<rparr>) r = tier_pruned ident scope t c r"
  by (simp add: tier_pruned_def)

lemma tier_denies_ops [simp]: "tier_denies ident scope t (c\<lparr>ops := x\<rparr>) r = tier_denies ident scope t c r"
  by (simp add: tier_denies_def)

lemma tier_wait_ops [simp]: "tier_wait ident scope t (c\<lparr>ops := x\<rparr>) r = tier_wait ident scope t c r"
  by (simp add: tier_wait_def)

lemma check_rates_char:
  "check_rates ident scope t (map Some tiers) c waits writes =
     Inr (waits @ map (tier_wait ident scope t c) (filter (tier_denies ident scope t c) tiers),
          writes @ map (\<lambda>r. (tier_key ident scope r, tier_pruned ident scope t c r, snd (snd r))) tiers,
          c\<lparr>ops := ops c @ map (\<lambda>r. Get (tier_key ident scope r)) tiers\<rparr>)"
proof (induction tiers arbitrary: c waits writes)
  case Nil
  then show ?case by simp
next
  case (Cons r tiers)
  obtain name n d where r: "r = (name, n, d)" by (cases r) auto
  show ?case
    by (simp add: r Cons.IH cache_get_def Let_def tier_wait_def tier_denies_def tier_pruned_def
        tier_key_def drop_expired_prune_spec stored_history_def)
qed

lemma write_histories_char:
  "write_histories t (map (\<lambda>r. (kf r, hf r, df r)) rs) c =
     \<lparr>entries = fold (\<lambda>r m. m(kf r \<mapsto> (t # hf r, df r))) rs (entries c),
      ops = ops c @ map (\<lambda>r. Set (kf r) (t # hf r) (df r)) rs\<rparr>"
  by (induction rs arbitrary: c) (simp_all add: cache_set_def)

lemma fold_upd_other:
  "k \<notin> kf ` set rs \<Longrightarrow> fold (\<lambda>r m. m(kf r \<mapsto> vf r)) rs m0 k = m0 k"
  by (induction rs arbitrary: m0) auto

lemma fold_upd_lookup:
  "distinct (map kf rs) \<Longrightarrow> r \<in> set rs \<Longrightarrow> fold (\<lambda>r m. m(kf r \<mapsto> vf r)) rs m0 (kf r) = Some (vf r)"
proof (induction rs arbitrary: m0)
  case Nil
  then show ?case by simp
next
  case (Cons a rs)
  define f where "f = (\<lambda>r (m :: 'a \<Rightarrow> 'c option). m(kf r \<mapsto> vf r))"
  have unfold: "fold f (a # rs) m0 = fold f rs (m0(kf a \<mapsto> vf a))"
    by (simp add: f_def)
  show ?case
  proof (cases "r = a")
    case True
    with Cons.prems have "kf a \<notin> kf ` set rs" by auto
    then have "fold f rs (m0(kf a \<mapsto> vf a)) (kf a) = (m0(kf a \<mapsto> vf a)) (kf a)"
      unfolding f_def by (rule fold_upd_other)
    then have "fold f (a # rs) m0 (kf r) = Some (vf r)"
      using True unfold by simp
    then show ?thesis by (simp only: f_def)
  next
    case False
    with Cons.prems have "distinct (map kf rs)" and "r \<in> set rs" by auto
    then have "fold f rs (m0(kf a \<mapsto> vf a)) (kf r) = Some (vf r)"
      unfolding f_def by (rule Cons.IH)
    then have "fold f (a # rs) m0 (kf r) = Some (vf r)"
      using unfold by simp
    then show ?thesis by (simp only: f_def)
  qed
qed

lemma get_cache_key_inj_rate:
  "CommonThrottle_get_cache_key ident scope n = CommonThrottle_get_cache_key ident scope n' \<Longrightarrow> n = n'"
  unfolding CommonThrottle_get_cache_key_def
  by (simp only: same_append_eq append_same_eq)

lemma tier_key_inj: "tier_key ident scope r = tier_key ident scope r' \<Longrightarrow> fst r = fst r'"
  unfolding tier_key_def by (rule get_cache_key_inj_rate)

lemma distinct_tier_keys:
  assumes "distinct (map fst tiers)"
  shows "distinct (map (tier_key ident scope) tiers)"
proof -
  have "inj_on (tier_key ident scope) (set tiers)"
  proof (rule inj_onI)
    fix r r' assume "r \<in> set tiers" "r' \<in> set tiers"
      and eq: "tier_key ident scope r = tier_key ident scope r'"
    from eq have "fst r = fst r'" by (rule tier_key_inj)
    moreover from assms have "inj_on fst (set tiers)" by (simp add: distinct_map)
    ultimately show "r = r'"
      using \<open>r \<in> set tiers\<close> \<open>r' \<in> set tiers\<close> by (simp add: inj_on_def)
  qed
  moreover from assms have "distinct tiers" by (simp add: distinct_map)
  ultimately show ?thesis by (simp add: distinct_map)
qed

lemma allow_request_tiers:
  assumes rates: "CommonThrottle_get_rates api_settings (CommonThrottle_get_scope request) =
                    Inr (map Some tiers)"
    and nw: "\<not> CommonThrottle_is_whitelisted amc (DEFAULT_THROTTLE_WHITELIST api_settings)
                 (CommonThrottle_get_ident request)"
  shows "CommonThrottle_allow_request amc api_settings self request t c =
     (let ident = CommonThrottle_get_ident request;
          scope = CommonThrottle_get_scope request;
          denying = filter (tier_denies ident scope t c) tiers;
          reads = map (\<lambda>r. Get (tier_key ident scope r)) tiers
      in if denying \<noteq> []
         then Inr (False,
                   self\<lparr>wait_attr := Some (Max (set (map (tier_wait ident scope t c) denying)))\<rparr>,
                   c\<lparr>ops := ops c @ reads\<rparr>)
         else Inr (True, self,
                   \<lparr>entries = committed_entries ident scope t c tiers,
                    ops = ops c @ reads @
                      map (\<lambda>r. Set (tier_key ident scope r) (t # tier_pruned ident scope t c r)
                                 (snd (snd r))) tiers\<rparr>))"
proof (cases "tiers = []")
  case True
  then show ?thesis using rates nw
    by (simp add: CommonThrottle_allow_request_def committed_entries_def Let_def)
next
  case False
  let ?ident = "CommonThrottle_get_ident request"
  let ?scope = "CommonThrottle_get_scope request"
  let ?den = "filter (tier_denies ?ident ?scope t c) tiers"
  show ?thesis
  proof (cases ?den)
    case Nil
    then show ?thesis using rates nw False
      by (simp add: CommonThrottle_allow_request_def Let_def check_rates_char
          write_histories_char committed_entries_def)
  next
    case (Cons r rs)
    have "fold max (map (tier_wait ?ident ?scope t c) rs) (tier_wait ?ident ?scope t c r) =
          Max (set (map (tier_wait ?ident ?scope t c) (r # rs)))"
      by (simp only: list.map Max.set_eq_fold)
    then show ?thesis using rates nw False Cons
      by (simp add: CommonThrottle_allow_request_def Let_def check_rates_char)
  qed
qed

lemma ex_rates: "CommonThrottle_get_rates example_settings ''anon-read'' =
    Inr (map Some [(''2/min'', 2, 60), (''5/hour'', 5, 3600)])"
  by (simp add: CommonThrottle_get_rates_def example_settings_def CommonThrottle_parse_rate_def
      py_int_def is_int_space_def digit_of_def period_seconds_def)

lemma ex_scope: "CommonThrottle_get_scope example_request = ''anon-read''"
  by (simp add: CommonThrottle_get_scope_def example_request_def)

lemma ex_ident: "CommonThrottle_get_ident example_request = IdStr ''10.1.2.3''"
  by (simp add: CommonThrottle_get_ident_def example_request_def)

lemma digit_chars:
  "char_of (48 :: nat) = CHR ''0''" "char_of (49 :: nat) = CHR ''1''"
  "char_of (50 :: nat) = CHR ''2''" "char_of (51 :: nat) = CHR ''3''"
  "char_of (52 :: nat) = CHR ''4''" "char_of (53 :: nat) = CHR ''5''"
  "char_of (54 :: nat) = CHR ''6''" "char_of (55 :: nat) = CHR ''7''"
  "char_of (56 :: nat) = CHR ''8''" "char_of (57 :: nat) = CHR ''9''"
  by code_simp+

lemma ex_parse_ip: "parse_ipv4 ''10.1.2.3'' = Some 167838211"
  by (simp add: parse_ipv4_def parse_octet_def digit_of_def digits_of.simps digit_chars)

lemma ex_not_whitelisted:
  "\<not> CommonThrottle_is_whitelisted ipv4_all_matching_cidrs
       (DEFAULT_THROTTLE_WHITELIST example_settings) (IdStr ''10.1.2.3'')"
  by (simp add: example_settings_def ipv4_all_matching_cidrs_def parse_ident_def ex_parse_ip
      parse_network_def parse_ipv4_def parse_octet_def digit_of_def in_network_def digits_of.simps
      digit_chars)


text \<open>
  Claim C1. For a request whose scope is configured with the rate tiers \<open>tiers\<close> and
  whose identity is not whitelisted, \<open>CommonThrottle_allow_request\<close> reads every tier's
  history once. If some tier's pruned history is at least as long as the tier's count,
  the request is denied, the wait kept on the instance is the maximum of the waits of
  the denying tiers, and the cache entries are the ones before the call: nothing is
  written. Otherwise the request is admitted and, tier by tier, \<open>t\<close> in front of the
  tier's pruned history is stored with the tier's window as timeout; when the tiers have
  distinct names, every tier's key then holds exactly that history and that timeout.
\<close>

theorem multi_tier_all_or_nothing:
  assumes rates: "CommonThrottle_get_rates api_settings (CommonThrottle_get_scope request) =
                    Inr (map Some tiers)"
    and nw: "\<not> CommonThrottle_is_whitelisted amc (DEFAULT_THROTTLE_WHITELIST api_settings)
                 (CommonThrottle_get_ident request)"
  shows "CommonThrottle_allow_request amc api_settings self request t c =
     (let ident = CommonThrottle_get_ident request;
          scope = CommonThrottle_get_scope request;
          denying = filter (tier_denies ident scope t c) tiers;
          reads = map (\<lambda>r. Get (tier_key ident scope r)) tiers
      in if denying \<noteq> []
         then Inr (False,
                   self\<lparr>wait_attr := Some (Max (set (map (tier_wait ident scope t c) denying)))\<rparr>,
                   c\<lparr>ops := ops c @ reads\<rparr>)
         else Inr (True, self,
                   \<lparr>entries = committed_entries ident scope t c tiers,
                    ops = ops c @ reads @
                      map (\<lambda>r. Set (tier_key ident scope r) (t # tier_pruned ident scope t c r)
                                 (snd (snd r))) tiers\<rparr>))
   \<and> (distinct (map fst tiers) \<longrightarrow>
        (\<forall>r \<in> set tiers.
           committed_entries (CommonThrottle_get_ident request) (CommonThrottle_get_scope request)
             t c tiers
             (tier_key (CommonThrottle_get_ident request) (CommonThrottle_get_scope request) r) =
           Some (t # tier_pruned (CommonThrottle_get_ident request)
                       (CommonThrottle_get_scope request) t c r, snd (snd r))))"
proof (intro conjI impI ballI)
  show "CommonThrottle_allow_request amc api_settings self request t c =
     (let ident = CommonThrottle_get_ident request;
          scope = CommonThrottle_get_scope request;
          denying = filter (tier_denies ident scope t c) tiers;
          reads = map (\<lambda>r. Get (tier_key ident scope r)) tiers
      in if denying \<noteq> []
         then Inr (False,
                   self\<lparr>wait_attr := Some (Max (set (map (tier_wait ident scope t c) denying)))\<rparr>,
                   c\<lparr>ops := ops c @ reads\<rparr>)
         else Inr (True, self,
                   \<lparr>entries = committed_entries ident scope t c tiers,
                    ops = ops c @ reads @
                      map (\<lambda>r. Set (tier_key ident scope r) (t # tier_pruned ident scope t c r)
                                 (snd (snd r))) tiers\<rparr>))"
    by (rule allow_request_tiers [OF rates nw])
next
  fix r
  assume d: "distinct (map fst tiers)" and r: "r \<in> set tiers"
  let ?ident = "CommonThrottle_get_ident request"
  let ?scope = "CommonThrottle_get_scope request"
  from d have "distinct (map (tier_key ?ident ?scope) tiers)" by (rule distinct_tier_keys)
  from fold_upd_lookup [OF this r]
  show "committed_entries ?ident ?scope t c tiers (tier_key ?ident ?scope r) =
          Some (t # tier_pruned ?ident ?scope t c r, snd (snd r))"
    unfolding committed_entries_def .
qed

text \<open>
  Two tiers, 2/min and 5/hour, on the example cache: at \<open>t = 15\<close> the first tier denies
  and the second would admit, and the request is denied without a write; at \<open>t = 61\<close>
  both admit and both histories are written.
\<close>

theorem multi_tier_all_or_nothing_witness:
  "CommonThrottle_get_rates example_settings (CommonThrottle_get_scope example_request) =
     Inr (map Some [(''2/min'', 2, 60), (''5/hour'', 5, 3600)])
   \<and> \<not> CommonThrottle_is_whitelisted ipv4_all_matching_cidrs
         (DEFAULT_THROTTLE_WHITELIST example_settings) (CommonThrottle_get_ident example_request)
   \<and> distinct (map fst [(''2/min'', 2 :: int, 60 :: int), (''5/hour'', 5, 3600)])
   \<and> CommonThrottle_allow_request ipv4_all_matching_cidrs example_settings
         \<lparr>wait_attr = None\<rparr> example_request 15 example_cache =
       Inr (False, \<lparr>wait_attr = Some 45\<rparr>,
            example_cache\<lparr>ops := [Get ''throtte_anon-read_2/min_10.1.2.3'',
                                   Get ''throtte_anon-read_5/hour_10.1.2.3'']\<rparr>)
   \<and> CommonThrottle_allow_request ipv4_all_matching_cidrs example_settings
         \<lparr>wait_attr = None\<rparr> example_request 61 example_cache =
       Inr (True, \<lparr>wait_attr = None\<rparr>,
            \<lparr>entries = committed_entries (IdStr ''10.1.2.3'') ''anon-read'' 61 example_cache
                          [(''2/min'', 2, 60), (''5/hour'', 5, 3600)],
             ops = [Get ''throtte_anon-read_2/min_10.1.2.3'',
                    Get ''throtte_anon-read_5/hour_10.1.2.3'',
                    Set ''throtte_anon-read_2/min_10.1.2.3'' [61, 10] 60,
                    Set ''throtte_anon-read_5/hour_10.1.2.3'' [61, 10, 0] 3600]\<rparr>)
   \<and> committed_entries (IdStr ''10.1.2.3'') ''anon-read'' 61 example_cache
         [(''2/min'', 2, 60), (''5/hour'', 5, 3600)] ''throtte_anon-read_2/min_10.1.2.3'' =
       Some ([61, 10], 60)
   \<and> committed_entries (IdStr ''10.1.2.3'') ''anon-read'' 61 example_cache
         [(''2/min'', 2, 60), (''5/hour'', 5, 3600)] ''throtte_anon-read_5/hour_10.1.2.3'' =
       Some ([61, 10, 0], 3600)"
proof -
  have pruned:
    "tier_pruned (IdStr ''10.1.2.3'') ''anon-read'' 15 example_cache (''2/min'', 2, 60) = [10, 0]"
    "tier_pruned (IdStr ''10.1.2.3'') ''anon-read'' 15 example_cache (''5/hour'', 5, 3600) = [10, 0]"
    "tier_pruned (IdStr ''10.1.2.3'') ''anon-read'' 61 example_cache (''2/min'', 2, 60) = [10]"
    "tier_pruned (IdStr ''10.1.2.3'') ''anon-read'' 61 example_cache (''5/hour'', 5, 3600) = [10, 0]"
    by (simp_all add: tier_pruned_def tier_key_def CommonThrottle_get_cache_key_def
        stored_history_def prune_spec_def example_cache_def)
  have keys:
    "tier_key (IdStr ''10.1.2.3'') ''anon-read'' (''2/min'', 2, 60) = ''throtte_anon-read_2/min_10.1.2.3''"
    "tier_key (IdStr ''10.1.2.3'') ''anon-read'' (''5/hour'', 5, 3600) = ''throtte_anon-read_5/hour_10.1.2.3''"
    by (simp_all add: tier_key_def CommonThrottle_get_cache_key_def)
  have nw: "\<not> CommonThrottle_is_whitelisted ipv4_all_matching_cidrs
         (DEFAULT_THROTTLE_WHITELIST example_settings) (CommonThrottle_get_ident example_request)"
    by (simp add: ex_ident ex_not_whitelisted)
  have rates: "CommonThrottle_get_rates example_settings (CommonThrottle_get_scope example_request) =
     Inr (map Some [(''2/min'', 2, 60), (''5/hour'', 5, 3600)])"
    by (simp only: ex_scope ex_rates)
  note thm15 = multi_tier_all_or_nothing [OF rates nw, of "\<lparr>wait_attr = None\<rparr>" 15 example_cache]
  note thm61 = multi_tier_all_or_nothing [OF rates nw, of "\<lparr>wait_attr = None\<rparr>" 61 example_cache]
  have ops: "ops example_cache = []" by (simp add: example_cache_def)
  show ?thesis
    using thm15 thm61 rates nw
    by (simp add: ex_scope ex_ident pruned keys tier_denies_def tier_wait_def ops
        CommonThrottle_wait_time_def Let_def)
qed

subsection \<open>The whitelist and the rate table\<close>

lemma ex_whitelisted:
  "CommonThrottle_is_whitelisted ipv4_all_matching_cidrs
     (DEFAULT_THROTTLE_WHITELIST whitelist_settings) (IdStr ''10.1.2.3'')"
  by (simp add: whitelist_settings_def ipv4_all_matching_cidrs_def parse_ident_def ex_parse_ip
      parse_network_def parse_ipv4_def parse_octet_def digit_of_def in_network_def digits_of.simps
      digit_chars)

lemma ex_whitelist_rates:
  "CommonThrottle_get_rates whitelist_settings ''anon-read'' = Inr [Some (''2/min'', 2, 60)]"
  by (simp add: CommonThrottle_get_rates_def whitelist_settings_def CommonThrottle_parse_rate_def
      py_int_def is_int_space_def digit_of_def period_seconds_def)

text \<open>
  Claim C6. Looking up a scope that is absent from the rate table raises
  \<^verbatim>\<open>ImproperlyConfigured\<close>. A scope configured as \<^verbatim>\<open>None\<close> or as the empty list is
  unthrottled: the request is admitted and the cache is the one before the call.
\<close>

theorem unconfigured_and_unthrottled_scopes:
  "(THROTTLE_RATES api_settings scope = None \<longrightarrow>
      CommonThrottle_get_rates api_settings scope = Inl ImproperlyConfigured)
   \<and> (THROTTLE_RATES api_settings (CommonThrottle_get_scope request) = Some RatesNone
       \<or> THROTTLE_RATES api_settings (CommonThrottle_get_scope request) = Some (RatesList [])
      \<longrightarrow> CommonThrottle_allow_request amc api_settings self request t c = Inr (True, self, c))"
  by (auto simp add: CommonThrottle_get_rates_def CommonThrottle_allow_request_def Let_def)

text \<open>The three cases for the scope of the example request.\<close>

theorem unconfigured_and_unthrottled_scopes_witness:
  "THROTTLE_RATES unconfigured_settings ''anon-read'' = None
   \<and> CommonThrottle_get_rates unconfigured_settings ''anon-read'' = Inl ImproperlyConfigured
   \<and> THROTTLE_RATES (example_settings\<lparr>THROTTLE_RATES := [''anon-read'' \<mapsto> RatesNone]\<rparr>)
        (CommonThrottle_get_scope example_request) = Some RatesNone
   \<and> CommonThrottle_allow_request ipv4_all_matching_cidrs
        (example_settings\<lparr>THROTTLE_RATES := [''anon-read'' \<mapsto> RatesNone]\<rparr>)
        \<lparr>wait_attr = None\<rparr> example_request 15 example_cache =
      Inr (True, \<lparr>wait_attr = None\<rparr>, example_cache)
   \<and> THROTTLE_RATES (example_settings\<lparr>THROTTLE_RATES := [''anon-read'' \<mapsto> RatesList []]\<rparr>)
        (CommonThrottle_get_scope example_request) = Some (RatesList [])
   \<and> CommonThrottle_allow_request ipv4_all_matching_cidrs
        (example_settings\<lparr>THROTTLE_RATES := [''anon-read'' \<mapsto> RatesList []]\<rparr>)
        \<lparr>wait_attr = None\<rparr> example_request 15 example_cache =
      Inr (True, \<lparr>wait_attr = None\<rparr>, example_cache)"
  using unconfigured_and_unthrottled_scopes
      [of unconfigured_settings "''anon-read''" example_request ipv4_all_matching_cidrs
          "\<lparr>wait_attr = None\<rparr>" 15 example_cache]
    unconfigured_and_unthrottled_scopes
      [of "example_settings\<lparr>THROTTLE_RATES := [''anon-read'' \<mapsto> RatesNone]\<rparr>" "''anon-read''"
          example_request ipv4_all_matching_cidrs "\<lparr>wait_attr = None\<rparr>" 15 example_cache]
    unconfigured_and_unthrottled_scopes
      [of "example_settings\<lparr>THROTTLE_RATES := [''anon-read'' \<mapsto> RatesList []]\<rparr>" "''anon-read''"
          example_request ipv4_all_matching_cidrs "\<lparr>wait_attr = None\<rparr>" 15 example_cache]
  by (simp add: ex_scope unconfigured_settings_def whitelist_settings_def)

text \<open>
  Claim C10. The rates of the request's scope are looked up before the whitelist is
  consulted: when the scope is absent from the rate table, \<open>CommonThrottle_allow_request\<close>
  raises \<^verbatim>\<open>ImproperlyConfigured\<close> whatever the whitelist holds, and whenever it returns
  a decision, for a whitelisted identity too, the scope is configured.
\<close>

theorem rate_lookup_precedes_whitelist:
  "(THROTTLE_RATES api_settings (CommonThrottle_get_scope request) = None \<longrightarrow>
      CommonThrottle_allow_request amc api_settings self request t c = Inl ImproperlyConfigured)
   \<and> (CommonThrottle_allow_request amc api_settings self request t c = Inr res \<longrightarrow>
      THROTTLE_RATES api_settings (CommonThrottle_get_scope request) \<noteq> None)"
proof -
  have absent: "CommonThrottle_allow_request amc api_settings self request t c = Inl ImproperlyConfigured"
    if "THROTTLE_RATES api_settings (CommonThrottle_get_scope request) = None"
    using that by (simp add: CommonThrottle_get_rates_def CommonThrottle_allow_request_def Let_def)
  have "THROTTLE_RATES api_settings (CommonThrottle_get_scope request) \<noteq> None"
    if "CommonThrottle_allow_request amc api_settings self request t c = Inr res"
  proof
    assume "THROTTLE_RATES api_settings (CommonThrottle_get_scope request) = None"
    then have "CommonThrottle_allow_request amc api_settings self request t c = Inl ImproperlyConfigured"
      by (rule absent)
    with that show False by simp
  qed
  with absent show ?thesis by blast
qed

text \<open>
  The whitelisted example client: an error without a configured scope, admission with
  one.
\<close>

theorem rate_lookup_precedes_whitelist_witness:
  "THROTTLE_RATES unconfigured_settings (CommonThrottle_get_scope example_request) = None
   \<and> entry_matches ipv4_all_matching_cidrs (CommonThrottle_get_ident example_request)
        (WStr ''10.0.0.0/8'')
   \<and> WStr ''10.0.0.0/8'' \<in> set (DEFAULT_THROTTLE_WHITELIST unconfigured_settings)
   \<and> CommonThrottle_allow_request ipv4_all_matching_cidrs unconfigured_settings
        \<lparr>wait_attr = None\<rparr> example_request 15 example_cache = Inl ImproperlyConfigured
   \<and> CommonThrottle_allow_request ipv4_all_matching_cidrs whitelist_settings
        \<lparr>wait_attr = None\<rparr> example_request 15 example_cache =
      Inr (True, \<lparr>wait_attr = None\<rparr>, example_cache)
   \<and> THROTTLE_RATES whitelist_settings (CommonThrottle_get_scope example_request) \<noteq> None"
proof -
  have m: "entry_matches ipv4_all_matching_cidrs (CommonThrottle_get_ident example_request)
        (WStr ''10.0.0.0/8'')"
    by (simp add: ex_ident entry_matches_def ipv4_all_matching_cidrs_def parse_ident_def ex_parse_ip
      parse_network_def parse_ipv4_def parse_octet_def digit_of_def in_network_def digits_of.simps
      digit_chars)
  have a: "CommonThrottle_allow_request ipv4_all_matching_cidrs whitelist_settings
        \<lparr>wait_attr = None\<rparr> example_request 15 example_cache =
      Inr (True, \<lparr>wait_attr = None\<rparr>, example_cache)"
    by (simp add: CommonThrottle_allow_request_def ex_scope ex_ident ex_whitelisted ex_whitelist_rates)
  show ?thesis
    using rate_lookup_precedes_whitelist
      [of unconfigured_settings example_request ipv4_all_matching_cidrs
          "\<lparr>wait_attr = None\<rparr>" 15 example_cache]
      rate_lookup_precedes_whitelist
      [of whitelist_settings example_request ipv4_all_matching_cidrs "\<lparr>wait_attr = None\<rparr>" 15
          example_cache "(True, \<lparr>wait_attr = None\<rparr>, example_cache)"] m a
    by (simp add: ex_scope unconfigured_settings_def whitelist_settings_def)
qed

subsection \<open>Identity resolution\<close>

lemma split_sep_nonempty: "split_sep sep s \<noteq> []"
  by (induction s) (auto split: list.splits)

lemma split_ws_from_concat: "concat (split_ws_from w s) = w @ remove_whitespace s"
  by (induction s arbitrary: w) (simp_all add: remove_whitespace_def)

lemma split_ws_concat: "concat (split_ws s) = remove_whitespace s"
  by (simp add: split_ws_def split_ws_from_concat)

lemma py_index_from_end:
  assumes "0 < n" and "xs \<noteq> []"
  shows "py_index xs (- min n (int (length xs))) =
           Inr (xs ! (length xs - nat (min n (int (length xs)))))"
proof -
  let ?len = "int (length xs)"
  let ?m = "min n ?len"
  from assms have len: "0 < ?len" by simp
  with assms(1) have m: "0 < ?m" "?m \<le> ?len" by simp_all
  then have "nat (?len - ?m) = length xs - nat ?m" by linarith
  with m show ?thesis by (simp add: py_index_def Let_def)
qed

lemma get_ident_proxies:
  assumes "NUM_PROXIES api_settings = Some n" and "0 < n"
    and "HTTP_X_FORWARDED_FOR request = Some h"
  shows "get_ident api_settings request =
     Inr (Some (strip (split_sep CHR '','' h !
                 (length (split_sep CHR '','' h) -
                  nat (min n (int (length (split_sep CHR '','' h))))))))"
  using assms
  by (simp add: get_ident_def Let_def py_index_from_end split_sep_nonempty)

lemma scenario:
  "get_ident (proxy_settings (Some 2)) (forwarded_request (Some ''1.1.1.1, 2.2.2.2, 3.3.3.3'')) =
     Inr (Some ''2.2.2.2'')"
  by (simp add: get_ident_def proxy_settings_def forwarded_request_def py_index_def Let_def
      strip_def is_space_def)

text \<open>
  Claim C5, as amended. With a positive number \<open>n\<close> of proxies and the forwarded header
  present, \<open>get_ident\<close> splits the header on commas and returns the segment at index
  \<open>len - min n len\<close>, stripped of surrounding whitespace. With zero proxies, or without
  the header, it returns the direct address. With the number of proxies unset it returns
  the header with all whitespace removed when the header is present and not empty, and
  the direct address when the header is empty. With two proxies and the header
  \<^verbatim>\<open>1.1.1.1, 2.2.2.2, 3.3.3.3\<close> the identity is \<^verbatim>\<open>2.2.2.2\<close>.
\<close>

theorem identity_resolution:
  "(NUM_PROXIES api_settings = Some n \<and> 0 < n \<and> HTTP_X_FORWARDED_FOR request = Some h \<longrightarrow>
      get_ident api_settings request =
        Inr (Some (strip (split_sep CHR '','' h !
                    (length (split_sep CHR '','' h) -
                     nat (min n (int (length (split_sep CHR '','' h)))))))))
   \<and> (NUM_PROXIES api_settings = Some 0 \<or> HTTP_X_FORWARDED_FOR request = None \<longrightarrow>
      get_ident api_settings request = Inr (REMOTE_ADDR request))
   \<and> (NUM_PROXIES api_settings = None \<and> HTTP_X_FORWARDED_FOR request = Some h \<and> h \<noteq> [] \<longrightarrow>
      get_ident api_settings request = Inr (Some (remove_whitespace h)))
   \<and> (NUM_PROXIES api_settings = None \<and> HTTP_X_FORWARDED_FOR request = Some [] \<longrightarrow>
      get_ident api_settings request = Inr (REMOTE_ADDR request))
   \<and> get_ident (proxy_settings (Some 2))
        (forwarded_request (Some ''1.1.1.1, 2.2.2.2, 3.3.3.3'')) = Inr (Some ''2.2.2.2'')"
proof (intro conjI impI)
  assume "NUM_PROXIES api_settings = Some n \<and> 0 < n \<and> HTTP_X_FORWARDED_FOR request = Some h"
  then show "get_ident api_settings request =
        Inr (Some (strip (split_sep CHR '','' h !
                    (length (split_sep CHR '','' h) -
                     nat (min n (int (length (split_sep CHR '','' h))))))))"
    by (simp add: get_ident_proxies)
next
  assume "NUM_PROXIES api_settings = Some 0 \<or> HTTP_X_FORWARDED_FOR request = None"
  then show "get_ident api_settings request = Inr (REMOTE_ADDR request)"
    by (auto simp add: get_ident_def Let_def split: option.splits)
next
  assume "NUM_PROXIES api_settings = None \<and> HTTP_X_FORWARDED_FOR request = Some h \<and> h \<noteq> []"
  then show "get_ident api_settings request = Inr (Some (remove_whitespace h))"
    by (simp add: get_ident_def Let_def split_ws_concat)
next
  assume "NUM_PROXIES api_settings = None \<and> HTTP_X_FORWARDED_FOR request = Some []"
  then show "get_ident api_settings request = Inr (REMOTE_ADDR request)"
    by (simp add: get_ident_def Let_def)
next
  show "get_ident (proxy_settings (Some 2))
        (forwarded_request (Some ''1.1.1.1, 2.2.2.2, 3.3.3.3'')) = Inr (Some ''2.2.2.2'')"
    by (rule scenario)
qed

text \<open>One request for every case of the theorem.\<close>

theorem identity_resolution_witness:
  "NUM_PROXIES (proxy_settings (Some 1)) = Some 1 \<and> (0::int) < 1
   \<and> HTTP_X_FORWARDED_FOR (forwarded_request (Some ''1.1.1.1, 2.2.2.2'')) = Some ''1.1.1.1, 2.2.2.2''
   \<and> get_ident (proxy_settings (Some 1)) (forwarded_request (Some ''1.1.1.1, 2.2.2.2'')) =
       Inr (Some ''2.2.2.2'')
   \<and> get_ident (proxy_settings (Some 5)) (forwarded_request (Some ''1.1.1.1, 2.2.2.2'')) =
       Inr (Some ''1.1.1.1'')
   \<and> get_ident (proxy_settings (Some 0)) (forwarded_request (Some ''1.1.1.1, 2.2.2.2'')) =
       Inr (Some ''9.9.9.9'')
   \<and> get_ident (proxy_settings (Some 1)) (forwarded_request None) = Inr (Some ''9.9.9.9'')
   \<and> get_ident (proxy_settings None) (forwarded_request (Some '' 1.1.1.1, 2.2.2.2'')) =
       Inr (Some ''1.1.1.1,2.2.2.2'')
   \<and> get_ident (proxy_settings None) (forwarded_request (Some '''')) = Inr (Some ''9.9.9.9'')"
  using identity_resolution
      [of "proxy_settings (Some 1)" 1 "forwarded_request (Some ''1.1.1.1, 2.2.2.2'')"
          "''1.1.1.1, 2.2.2.2''"]
    identity_resolution
      [of "proxy_settings (Some 5)" 5 "forwarded_request (Some ''1.1.1.1, 2.2.2.2'')"
          "''1.1.1.1, 2.2.2.2''"]
    identity_resolution
      [of "proxy_settings (Some 0)" 0 "forwarded_request (Some ''1.1.1.1, 2.2.2.2'')"
          "''1.1.1.1, 2.2.2.2''"]
    identity_resolution [of "proxy_settings (Some 1)" 1 "forwarded_request None" "[]"]
    identity_resolution
      [of "proxy_settings None" 0 "forwarded_request (Some '' 1.1.1.1, 2.2.2.2'')"
          "'' 1.1.1.1, 2.2.2.2''"]
    identity_resolution [of "proxy_settings None" 0 "forwarded_request (Some '''')" "[]"]
  by (simp add: proxy_settings_def forwarded_request_def strip_def is_space_def
      remove_whitespace_def)

text \<open>
  With the number of proxies unset and the header present but empty, the result is the
  direct address and not the header stripped of its whitespace.
\<close>

theorem identity_resolution_counterexample:
  "NUM_PROXIES (proxy_settings None) = None
   \<and> HTTP_X_FORWARDED_FOR (forwarded_request (Some '''')) = Some ''''
   \<and> get_ident (proxy_settings None) (forwarded_request (Some '''')) = Inr (Some ''9.9.9.9'')
   \<and> get_ident (proxy_settings None) (forwarded_request (Some '''')) \<noteq>
       Inr (Some (remove_whitespace ''''))
   \<and> get_ident (proxy_settings None) (forwarded_request (Some '''')) \<noteq> Inr (Some (strip ''''))"
  by (simp add: get_ident_def proxy_settings_def forwarded_request_def remove_whitespace_def
      strip_def)

subsection \<open>Wait times over time\<close>

lemma prune_spec_keep: "h = [] \<or> t - real_of_int w < last h \<Longrightarrow> prune_spec t w h = h"
  using drop_expired_keep [of h t w] by (simp add: drop_expired_prune_spec)

lemma prune_spec_length: "length (prune_spec t w h) \<le> length h"
  using length_dropWhile_le [of "\<lambda>x. x \<le> t - real_of_int w" "rev h"]
  by (simp add: prune_spec_def)

lemma prune_spec_shorter:
  assumes "h \<noteq> []" and "last h \<le> t - real_of_int w"
  shows "length (prune_spec t w h) < length h"
proof -
  from assms have "drop_expired t w h = drop_expired t w (butlast h)"
    by (subst drop_expired.simps) simp
  then have "prune_spec t w h = prune_spec t w (butlast h)"
    by (simp add: drop_expired_prune_spec)
  moreover have "length (prune_spec t w (butlast h)) \<le> length (butlast h)"
    by (rule prune_spec_length)
  moreover have "length (butlast h) < length h" using assms(1) by simp
  ultimately show ?thesis by simp
qed

lemma denied_exactly_saturated:
  assumes "rate self \<noteq> None" and "stored_history c k = h" and "h \<noteq> []"
    and "num_requests self = int (length h)" and "t - last h < real_of_int (duration self)"
  shows "\<not> fst (SimpleRateThrottle_allow_request self (Some k) t c)"
    and "SimpleRateThrottle_wait (fst (snd (SimpleRateThrottle_allow_request self (Some k) t c))) =
           Some (real_of_int (duration self) - (t - last h))"
proof -
  from assms(3,5) have "prune_spec t (duration self) h = h"
    by (intro prune_spec_keep) simp
  with assms(2,4) have
    "SimpleRateThrottle_allow_request self (Some k) t c =
       (False, self\<lparr>key := Some k, history := h, now := t\<rparr>, c\<lparr>ops := ops c @ [Get k]\<rparr>)"
    by (simp add: allow_request_char [OF assms(1)] Let_def)
  then show "\<not> fst (SimpleRateThrottle_allow_request self (Some k) t c)"
    and "SimpleRateThrottle_wait (fst (snd (SimpleRateThrottle_allow_request self (Some k) t c))) =
           Some (real_of_int (duration self) - (t - last h))"
    using assms(3,4) by (simp_all add: SimpleRateThrottle_wait_def Let_def)
qed

lemma admitted_after_window:
  assumes "rate self \<noteq> None" and "stored_history c k = h" and "h \<noteq> []"
    and "num_requests self = int (length h)" and "real_of_int (duration self) \<le> t - last h"
  shows "fst (SimpleRateThrottle_allow_request self (Some k) t c)"
proof -
  from assms(3,5) have "length (prune_spec t (duration self) h) < length h"
    by (intro prune_spec_shorter) simp_all
  with assms(2,4) show ?thesis
    by (simp add: allow_request_char [OF assms(1)] Let_def)
qed

lemma wait_time_remaining:
  "n \<le> int (length h) \<Longrightarrow> CommonThrottle_wait_time h (name, n, w) t = remaining_spec w t h"
proof -
  assume "n \<le> int (length h)"
  then have "n - int (length h) + 1 \<le> 0 \<or> n - int (length h) + 1 = 1" by auto
  then show ?thesis
    by (auto simp add: CommonThrottle_wait_time_def remaining_spec_def Let_def)
qed

lemma denied_over_saturated:
  assumes "rate self \<noteq> None" and "stored_history c k = h" and "h \<noteq> []"
    and "num_requests self < int (length h)" and "t - last h < real_of_int (duration self)"
  shows "\<not> fst (SimpleRateThrottle_allow_request self (Some k) t c)"
    and "SimpleRateThrottle_wait (fst (snd (SimpleRateThrottle_allow_request self (Some k) t c))) =
           None"
proof -
  from assms(3,5) have "prune_spec t (duration self) h = h"
    by (intro prune_spec_keep) simp
  with assms(2,4) have
    "SimpleRateThrottle_allow_request self (Some k) t c =
       (False, self\<lparr>key := Some k, history := h, now := t\<rparr>, c\<lparr>ops := ops c @ [Get k]\<rparr>)"
    by (simp add: allow_request_char [OF assms(1)] Let_def)
  then show "\<not> fst (SimpleRateThrottle_allow_request self (Some k) t c)"
    and "SimpleRateThrottle_wait (fst (snd (SimpleRateThrottle_allow_request self (Some k) t c))) =
           None"
    using assms(3,4) by (simp_all add: SimpleRateThrottle_wait_def Let_def)
qed

lemma single_tier_list_denied:
  assumes rates: "CommonThrottle_get_rates api_settings (CommonThrottle_get_scope request) =
                    Inr [Some (name, n, w)]"
    and nw: "\<not> CommonThrottle_is_whitelisted amc (DEFAULT_THROTTLE_WHITELIST api_settings)
                 (CommonThrottle_get_ident request)"
    and st: "stored_history c
               (tier_key (CommonThrottle_get_ident request) (CommonThrottle_get_scope request)
                  (name, n, w)) = h"
    and ne: "h \<noteq> []" and sat: "n \<le> int (length h)" and win: "t - last h < real_of_int w"
  shows "CommonThrottle_allow_request amc api_settings self request t c =
           Inr (False, self\<lparr>wait_attr := Some (real_of_int w - (t - last h))\<rparr>,
                c\<lparr>ops := ops c @
                  [Get (tier_key (CommonThrottle_get_ident request)
                          (CommonThrottle_get_scope request) (name, n, w))]\<rparr>)"
proof -
  let ?ident = "CommonThrottle_get_ident request"
  let ?scope = "CommonThrottle_get_scope request"
  let ?r = "(name, n, w)"
  from ne win have "prune_spec t w h = h" by (intro prune_spec_keep) simp
  with st have pruned: "tier_pruned ?ident ?scope t c ?r = h" by (simp add: tier_pruned_def)
  with sat have denies: "tier_denies ?ident ?scope t c ?r" by (simp add: tier_denies_def)
  from pruned sat ne have wait: "tier_wait ?ident ?scope t c ?r = real_of_int w - (t - last h)"
    by (simp add: tier_wait_def wait_time_remaining remaining_spec_def)
  from rates have "CommonThrottle_get_rates api_settings ?scope = Inr (map Some [?r])" by simp
  from allow_request_tiers [OF this nw, of self t c] denies wait show ?thesis
    by (simp add: Let_def)
qed

text \<open>
  Claim C8, as amended. Let \<open>t1 < t2\<close>, let the count be positive and let \<open>h\<close> be a
  saturated history whose oldest entry is still inside the window at \<open>t2\<close>, so that
  pruning leaves \<open>h\<close> as it is at both times. Then the multi-tier wait is strictly
  smaller at \<open>t2\<close> than at \<open>t1\<close>, and a multi-tier evaluator with this single tier
  denies both requests and reports these waits without a write. A single-tier throttle
  whose count equals the length of \<open>h\<close> denies both requests, and its wait is defined
  and strictly smaller at \<open>t2\<close>; when the count is below the length of \<open>h\<close> the request
  is denied and the single-tier wait is none. Once the age of the oldest entry has
  reached the window, a single-tier throttle whose count equals the length of \<open>h\<close>
  admits the request.
\<close>

theorem wait_time_monotone:
  assumes "t1 < t2"
  shows "(0 < n \<and> n \<le> int (length h) \<and> t2 - last h < real_of_int w \<longrightarrow>
            prune_spec t1 w h = h \<and> prune_spec t2 w h = h
            \<and> CommonThrottle_wait_time h (name, n, w) t2 < CommonThrottle_wait_time h (name, n, w) t1)
   \<and> (CommonThrottle_get_rates api_settings (CommonThrottle_get_scope request) = Inr [Some (name, n, w)]
        \<and> \<not> CommonThrottle_is_whitelisted amc (DEFAULT_THROTTLE_WHITELIST api_settings)
             (CommonThrottle_get_ident request)
        \<and> stored_history c0
             (tier_key (CommonThrottle_get_ident request) (CommonThrottle_get_scope request)
                (name, n, w)) = h
        \<and> 0 < n \<and> n \<le> int (length h) \<and> t2 - last h < real_of_int w \<longrightarrow>
        CommonThrottle_allow_request amc api_settings self0 request t1 c0 =
          Inr (False, self0\<lparr>wait_attr := Some (real_of_int w - (t1 - last h))\<rparr>,
               c0\<lparr>ops := ops c0 @
                 [Get (tier_key (CommonThrottle_get_ident request)
                         (CommonThrottle_get_scope request) (name, n, w))]\<rparr>)
        \<and> CommonThrottle_allow_request amc api_settings self0 request t2 c0 =
          Inr (False, self0\<lparr>wait_attr := Some (real_of_int w - (t2 - last h))\<rparr>,
               c0\<lparr>ops := ops c0 @
                 [Get (tier_key (CommonThrottle_get_ident request)
                         (CommonThrottle_get_scope request) (name, n, w))]\<rparr>)
        \<and> real_of_int w - (t2 - last h) < real_of_int w - (t1 - last h))
   \<and> (rate self \<noteq> None \<and> stored_history c k = h \<and> 0 < num_requests self
        \<and> num_requests self = int (length h)
        \<and> t2 - last h < real_of_int (duration self) \<longrightarrow>
        \<not> fst (SimpleRateThrottle_allow_request self (Some k) t1 c)
        \<and> \<not> fst (SimpleRateThrottle_allow_request self (Some k) t2 c)
        \<and> (\<exists>w1 w2.
              SimpleRateThrottle_wait (fst (snd (SimpleRateThrottle_allow_request self (Some k) t1 c)))
                = Some w1
            \<and> SimpleRateThrottle_wait (fst (snd (SimpleRateThrottle_allow_request self (Some k) t2 c)))
                = Some w2
            \<and> w2 < w1))
   \<and> (rate self \<noteq> None \<and> stored_history c k = h \<and> 0 < num_requests self
        \<and> num_requests self < int (length h)
        \<and> t2 - last h < real_of_int (duration self) \<longrightarrow>
        \<not> fst (SimpleRateThrottle_allow_request self (Some k) t2 c)
        \<and> SimpleRateThrottle_wait (fst (snd (SimpleRateThrottle_allow_request self (Some k) t2 c)))
            = None)
   \<and> (rate self \<noteq> None \<and> stored_history c k = h \<and> 0 < num_requests self
        \<and> num_requests self = int (length h)
        \<and> real_of_int (duration self) \<le> t - last h \<longrightarrow>
        fst (SimpleRateThrottle_allow_request self (Some k) t c))"
proof (intro conjI impI)
  assume a: "0 < n \<and> n \<le> int (length h) \<and> t2 - last h < real_of_int w"
  then have ne: "h \<noteq> []" by auto
  from a assms have b: "t1 - last h < real_of_int w" by simp
  from ne b show "prune_spec t1 w h = h" by (intro prune_spec_keep) simp
  from ne a show "prune_spec t2 w h = h" by (intro prune_spec_keep) simp
  from a have "CommonThrottle_wait_time h (name, n, w) t = remaining_spec w t h" for t
    using wait_time_remaining by simp
  then show "CommonThrottle_wait_time h (name, n, w) t2 < CommonThrottle_wait_time h (name, n, w) t1"
    using assms ne by (simp add: remaining_spec_def)
next
  assume a: "CommonThrottle_get_rates api_settings (CommonThrottle_get_scope request) = Inr [Some (name, n, w)]
        \<and> \<not> CommonThrottle_is_whitelisted amc (DEFAULT_THROTTLE_WHITELIST api_settings)
             (CommonThrottle_get_ident request)
        \<and> stored_history c0
             (tier_key (CommonThrottle_get_ident request) (CommonThrottle_get_scope request)
                (name, n, w)) = h
        \<and> 0 < n \<and> n \<le> int (length h) \<and> t2 - last h < real_of_int w"
  then have ne: "h \<noteq> []" by auto
  from a assms have b: "t1 - last h < real_of_int w" by simp
  show "CommonThrottle_allow_request amc api_settings self0 request t1 c0 =
          Inr (False, self0\<lparr>wait_attr := Some (real_of_int w - (t1 - last h))\<rparr>,
               c0\<lparr>ops := ops c0 @
                 [Get (tier_key (CommonThrottle_get_ident request)
                         (CommonThrottle_get_scope request) (name, n, w))]\<rparr>)"
    using a ne b by (intro single_tier_list_denied) simp_all
  show "CommonThrottle_allow_request amc api_settings self0 request t2 c0 =
          Inr (False, self0\<lparr>wait_attr := Some (real_of_int w - (t2 - last h))\<rparr>,
               c0\<lparr>ops := ops c0 @
                 [Get (tier_key (CommonThrottle_get_ident request)
                         (CommonThrottle_get_scope request) (name, n, w))]\<rparr>)"
    using a ne by (intro single_tier_list_denied) simp_all
  show "real_of_int w - (t2 - last h) < real_of_int w - (t1 - last h)" using assms by simp
next
  assume a: "rate self \<noteq> None \<and> stored_history c k = h \<and> 0 < num_requests self
        \<and> num_requests self = int (length h)
        \<and> t2 - last h < real_of_int (duration self)"
  then have ne: "h \<noteq> []" by auto
  from a assms have b: "t1 - last h < real_of_int (duration self)" by simp
  from a b ne show "\<not> fst (SimpleRateThrottle_allow_request self (Some k) t1 c)"
    by (intro denied_exactly_saturated(1) [where h = h]) simp_all
  from a ne show "\<not> fst (SimpleRateThrottle_allow_request self (Some k) t2 c)"
    by (intro denied_exactly_saturated(1) [where h = h]) simp_all
  have "SimpleRateThrottle_wait (fst (snd (SimpleRateThrottle_allow_request self (Some k) t1 c))) =
           Some (real_of_int (duration self) - (t1 - last h))"
    using a b ne by (intro denied_exactly_saturated(2)) simp_all
  moreover have "SimpleRateThrottle_wait (fst (snd (SimpleRateThrottle_allow_request self (Some k) t2 c))) =
           Some (real_of_int (duration self) - (t2 - last h))"
    using a ne by (intro denied_exactly_saturated(2)) simp_all
  ultimately show "\<exists>w1 w2.
              SimpleRateThrottle_wait (fst (snd (SimpleRateThrottle_allow_request self (Some k) t1 c)))
                = Some w1
            \<and> SimpleRateThrottle_wait (fst (snd (SimpleRateThrottle_allow_request self (Some k) t2 c)))
                = Some w2
            \<and> w2 < w1"
    using assms by simp
next
  assume a: "rate self \<noteq> None \<and> stored_history c k = h \<and> 0 < num_requests self
        \<and> num_requests self < int (length h)
        \<and> t2 - last h < real_of_int (duration self)"
  then have ne: "h \<noteq> []" by auto
  from a ne show "\<not> fst (SimpleRateThrottle_allow_request self (Some k) t2 c)"
    by (intro denied_over_saturated(1) [where h = h]) simp_all
  from a ne show "SimpleRateThrottle_wait (fst (snd (SimpleRateThrottle_allow_request self (Some k) t2 c)))
            = None"
    by (intro denied_over_saturated(2) [where h = h]) simp_all
next
  assume a: "rate self \<noteq> None \<and> stored_history c k = h \<and> 0 < num_requests self
        \<and> num_requests self = int (length h)
        \<and> real_of_int (duration self) \<le> t - last h"
  then have ne: "h \<noteq> []" by auto
  with a show "fst (SimpleRateThrottle_allow_request self (Some k) t c)"
    by (intro admitted_after_window [where h = h]) simp_all
qed


lemma ex_single_rate:
  "CommonThrottle_get_rates
     (example_settings\<lparr>THROTTLE_RATES := [''anon-read'' \<mapsto> RatesStr ''2/min'']\<rparr>) ''anon-read'' =
     Inr [Some (''2/min'', 2, 60)]"
  by (simp add: CommonThrottle_get_rates_def example_settings_def CommonThrottle_parse_rate_def
      py_int_def is_int_space_def digit_of_def period_seconds_def)

text \<open>
  The rate 2/min on the history \<open>[10, 0]\<close> at the times 15, 20 and 61, and on the history
  \<open>[10, 5, 0]\<close> at the time 20.
\<close>

theorem wait_time_monotone_witness:
  "(15 :: real) < 20
   \<and> (0 :: int) < 2 \<and> (2 :: int) \<le> int (length [10, 0 :: real])
   \<and> 20 - last [10, 0 :: real] < real_of_int 60
   \<and> stored_history example_cache
        (tier_key (CommonThrottle_get_ident example_request)
           (CommonThrottle_get_scope example_request) (''2/min'', 2, 60)) = [10, 0]
   \<and> rate two_per_minute \<noteq> None
   \<and> stored_history (cache_with [10, 0]) ''K'' = [10, 0]
   \<and> num_requests two_per_minute = int (length [10, 0 :: real])
   \<and> num_requests two_per_minute < int (length [10, 5, 0 :: real])
   \<and> real_of_int (duration two_per_minute) \<le> 61 - last [10, 0 :: real]
   \<and> prune_spec 15 60 [10, 0] = [10, 0] \<and> prune_spec 20 60 [10, 0] = [10, 0]
   \<and> CommonThrottle_wait_time [10, 0] (''2/min'', 2, 60) 20
         < CommonThrottle_wait_time [10, 0] (''2/min'', 2, 60) 15
   \<and> CommonThrottle_allow_request ipv4_all_matching_cidrs
        (example_settings\<lparr>THROTTLE_RATES := [''anon-read'' \<mapsto> RatesStr ''2/min'']\<rparr>)
        \<lparr>wait_attr = None\<rparr> example_request 15 example_cache =
       Inr (False, \<lparr>wait_attr = Some 45\<rparr>,
            example_cache\<lparr>ops := [Get ''throtte_anon-read_2/min_10.1.2.3'']\<rparr>)
   \<and> CommonThrottle_allow_request ipv4_all_matching_cidrs
        (example_settings\<lparr>THROTTLE_RATES := [''anon-read'' \<mapsto> RatesStr ''2/min'']\<rparr>)
        \<lparr>wait_attr = None\<rparr> example_request 20 example_cache =
       Inr (False, \<lparr>wait_attr = Some 40\<rparr>,
            example_cache\<lparr>ops := [Get ''throtte_anon-read_2/min_10.1.2.3'']\<rparr>)
   \<and> \<not> fst (SimpleRateThrottle_allow_request two_per_minute (Some ''K'') 15 (cache_with [10, 0]))
   \<and> \<not> fst (SimpleRateThrottle_allow_request two_per_minute (Some ''K'') 20 (cache_with [10, 0]))
   \<and> \<not> fst (SimpleRateThrottle_allow_request two_per_minute (Some ''K'') 20 (cache_with [10, 5, 0]))
   \<and> SimpleRateThrottle_wait
        (fst (snd (SimpleRateThrottle_allow_request two_per_minute (Some ''K'') 20
                     (cache_with [10, 5, 0])))) = None
   \<and> fst (SimpleRateThrottle_allow_request two_per_minute (Some ''K'') 61 (cache_with [10, 0]))"
proof -
  have facts: "rate two_per_minute \<noteq> None"
    "stored_history (cache_with [10, 0]) ''K'' = [10, 0]"
    "stored_history (cache_with [10, 5, 0]) ''K'' = [10, 5, 0]"
    "num_requests two_per_minute = 2"
    "duration two_per_minute = 60"
    by (simp_all add: two_per_minute_def cache_with_def stored_history_def)
  have key: "tier_key (CommonThrottle_get_ident example_request)
           (CommonThrottle_get_scope example_request) (''2/min'', 2, 60) =
           ''throtte_anon-read_2/min_10.1.2.3''"
    by (simp add: ex_ident ex_scope tier_key_def CommonThrottle_get_cache_key_def)
  have st: "stored_history example_cache ''throtte_anon-read_2/min_10.1.2.3'' = [10, 0]"
    by (simp add: stored_history_def example_cache_def)
  have ops: "ops example_cache = []" by (simp add: example_cache_def)
  have rates: "CommonThrottle_get_rates
     (example_settings\<lparr>THROTTLE_RATES := [''anon-read'' \<mapsto> RatesStr ''2/min'']\<rparr>)
     (CommonThrottle_get_scope example_request) = Inr [Some (''2/min'', 2, 60)]"
    by (simp only: ex_scope ex_single_rate)
  have nw: "\<not> CommonThrottle_is_whitelisted ipv4_all_matching_cidrs
       (DEFAULT_THROTTLE_WHITELIST
          (example_settings\<lparr>THROTTLE_RATES := [''anon-read'' \<mapsto> RatesStr ''2/min'']\<rparr>))
       (CommonThrottle_get_ident example_request)"
    using ex_not_whitelisted by (simp add: ex_ident)
  have lt: "(15 :: real) < 20" by simp
  note a = wait_time_monotone [OF lt, where n = 2 and h = "[10, 0]" and w = 60 and name = "''2/min''"
      and api_settings = "example_settings\<lparr>THROTTLE_RATES := [''anon-read'' \<mapsto> RatesStr ''2/min'']\<rparr>"
      and request = example_request and amc = ipv4_all_matching_cidrs and ?c0.0 = example_cache
      and ?self0.0 = "\<lparr>wait_attr = None\<rparr>" and self = two_per_minute
      and c = "cache_with [10, 0]" and k = "''K''" and t = 61]
  note b = wait_time_monotone [OF lt, where n = 2 and h = "[10, 5, 0]" and w = 60 and name = "''2/min''"
      and api_settings = "example_settings\<lparr>THROTTLE_RATES := [''anon-read'' \<mapsto> RatesStr ''2/min'']\<rparr>"
      and request = example_request and amc = ipv4_all_matching_cidrs and ?c0.0 = example_cache
      and ?self0.0 = "\<lparr>wait_attr = None\<rparr>" and self = two_per_minute
      and c = "cache_with [10, 5, 0]" and k = "''K''" and t = 61]
  from a b facts key st ops rates nw show ?thesis by simp
qed

text \<open>
  A history of three entries under the rate 2/min is saturated. At \<open>t = 61\<close> the oldest
  entry is older than the window and the request is still denied, and at \<open>t = 15\<close> the
  single-tier wait is not a number that could decrease.
\<close>

theorem wait_time_monotone_counterexample:
  "(2 :: int) \<le> int (length [10, 5, 0 :: real])
   \<and> prune_spec 15 60 [10, 5, 0] = [10, 5, 0]
   \<and> real_of_int 60 < 61 - last [10, 5, 0 :: real]
   \<and> \<not> fst (SimpleRateThrottle_allow_request two_per_minute (Some ''K'') 61 (cache_with [10, 5, 0]))
   \<and> SimpleRateThrottle_wait
        (fst (snd (SimpleRateThrottle_allow_request two_per_minute (Some ''K'') 15
                     (cache_with [10, 5, 0])))) = None"
  by (simp add: allow_request_char prune_spec_def stored_history_def cache_with_def
      two_per_minute_def SimpleRateThrottle_wait_def Let_def)

subsection \<open>Cache keys\<close>

lemma digit_char_code: "d < 10 \<Longrightarrow> (of_char (char_of (48 + d)) :: nat) = 48 + d"
  by simp

lemma digit_char_inj:
  assumes "a < 10" and "b < 10" and "char_of (48 + a) = (char_of (48 + b) :: char)"
  shows "a = (b :: nat)"
proof -
  from assms(3) have "(of_char (char_of (48 + a)) :: nat) = of_char (char_of (48 + b))"
    by simp
  with assms(1,2) show ?thesis by simp
qed

lemma digits_of_nonempty: "digits_of n \<noteq> []"
  by (subst digits_of.simps) simp

lemma digits_of_codes: "ch \<in> set (digits_of n) \<Longrightarrow> 48 \<le> (of_char ch :: nat) \<and> (of_char ch :: nat) \<le> 57"
proof (induction n rule: digits_of.induct)
  case (1 n)
  show ?case
  proof (cases "n < 10")
    case True
    with "1.prems" have "ch = char_of (48 + n)" by (subst (asm) digits_of.simps) simp
    with True show ?thesis by simp
  next
    case False
    with "1.prems" have "ch \<in> set (digits_of (n div 10)) \<or> ch = char_of (48 + n mod 10)"
      by (subst (asm) digits_of.simps) auto
    then show ?thesis
    proof
      assume "ch \<in> set (digits_of (n div 10))"
      with False "1.IH" show ?thesis by simp
    next
      assume "ch = char_of (48 + n mod 10)"
      moreover have "n mod 10 < 10" by simp
      ultimately show ?thesis by simp
    qed
  qed
qed

lemma digits_of_inj: "digits_of n = digits_of m \<Longrightarrow> n = m"
proof (induction n arbitrary: m rule: digits_of.induct)
  case (1 n)
  show ?case
  proof (cases "n < 10")
    case n: True
    show ?thesis
    proof (cases "m < 10")
      case True
      with n "1.prems" have "char_of (48 + n) = (char_of (48 + m) :: char)"
        by (simp add: digits_of.simps [of n] digits_of.simps [of m])
      with n True digit_char_inj [of n m] show ?thesis by simp
    next
      case False
      with n "1.prems" have "[char_of (48 + n) :: char] = digits_of (m div 10) @ [char_of (48 + m mod 10)]"
        by (simp add: digits_of.simps [of n] digits_of.simps [of m])
      then have "digits_of (m div 10) = []" by simp
      then show ?thesis by (simp add: digits_of_nonempty)
    qed
  next
    case n: False
    show ?thesis
    proof (cases "m < 10")
      case True
      with n "1.prems" have "digits_of (n div 10) @ [char_of (48 + n mod 10)] = [char_of (48 + m) :: char]"
        by (simp add: digits_of.simps [of n] digits_of.simps [of m])
      then have "digits_of (n div 10) = []" by simp
      then show ?thesis by (simp add: digits_of_nonempty)
    next
      case False
      with n "1.prems" have
        "digits_of (n div 10) @ [char_of (48 + n mod 10)] =
         digits_of (m div 10) @ [char_of (48 + m mod 10) :: char]"
        by (simp add: digits_of.simps [of n] digits_of.simps [of m])
      then have a: "digits_of (n div 10) = digits_of (m div 10)"
        and b: "char_of (48 + n mod 10) = (char_of (48 + m mod 10) :: char)"
        by simp_all
      from n a have "n div 10 = m div 10" by (rule "1.IH")
      moreover from b digit_char_inj [of "n mod 10" "m mod 10"] have "n mod 10 = m mod 10"
        by simp
      ultimately show ?thesis by (metis div_mult_mod_eq)
    qed
  qed
qed

lemma str_int_inj: "str_int i = str_int j \<Longrightarrow> i = j"
proof -
  assume eq: "str_int i = str_int j"
  have no_minus: "CHR ''-'' # xs \<noteq> digits_of n" for xs n
  proof
    assume "CHR ''-'' # xs = digits_of n"
    then have "CHR ''-'' \<in> set (digits_of n)" by (metis list.set_intros(1))
    then have "48 \<le> (of_char CHR ''-'' :: nat)" by (simp only: digits_of_codes)
    then show False by simp
  qed
  show ?thesis
  proof (cases "i < 0")
    case i: True
    show ?thesis
    proof (cases "j < 0")
      case True
      with i eq have "digits_of (nat (- i)) = digits_of (nat (- j))" by (simp add: str_int_def)
      then have "nat (- i) = nat (- j)" by (rule digits_of_inj)
      with i True show ?thesis by simp
    next
      case False
      with i eq have "CHR ''-'' # digits_of (nat (- i)) = digits_of (nat j)"
        by (simp add: str_int_def)
      with no_minus show ?thesis by blast
    qed
  next
    case i: False
    show ?thesis
    proof (cases "j < 0")
      case True
      with i eq have "CHR ''-'' # digits_of (nat (- j)) = digits_of (nat i)"
        by (simp add: str_int_def)
      with no_minus show ?thesis by blast
    next
      case False
      with i eq have "digits_of (nat i) = digits_of (nat j)" by (simp add: str_int_def)
      then have "nat i = nat j" by (rule digits_of_inj)
      with i False show ?thesis by simp
    qed
  qed
qed

lemma str_int_no_underscore: "CHR ''_'' \<notin> set (str_int i)"
proof
  assume "CHR ''_'' \<in> set (str_int i)"
  then have "CHR ''_'' \<in> set (digits_of (nat (- i))) \<or> CHR ''_'' \<in> set (digits_of (nat i))"
    by (auto simp add: str_int_def split: if_splits)
  then have "(of_char CHR ''_'' :: nat) \<le> 57" by (auto dest: digits_of_codes)
  then show False by simp
qed


lemma split_at_first:
  "c \<notin> set a \<Longrightarrow> c \<notin> set a' \<Longrightarrow> a @ c # x = a' @ c # y \<Longrightarrow> a = a' \<and> x = y"
proof (induction a arbitrary: a')
  case Nil
  then show ?case by (cases a') auto
next
  case (Cons z a)
  then show ?case by (cases a') auto
qed

lemma split_at_last:
  assumes "c \<notin> set x" and "c \<notin> set y" and "r @ c # x = r' @ c # y"
  shows "r = r' \<and> x = y"
proof -
  from assms(3) have "rev (r @ c # x) = rev (r' @ c # y)" by simp
  then have "rev x @ c # rev r = rev y @ c # rev r'" by simp
  moreover from assms(1,2) have "c \<notin> set (rev x)" "c \<notin> set (rev y)" by simp_all
  ultimately have "rev x = rev y \<and> rev r = rev r'"
    using split_at_first [of c "rev x" "rev y" "rev r" "rev r'"] by blast
  then show ?thesis by simp
qed

lemma cache_format_inj:
  assumes "CHR ''_'' \<notin> set scope" and "CHR ''_'' \<notin> set scope'"
    and "cache_format scope ident = cache_format scope' ident'"
  shows "scope = scope' \<and> py_str ident = py_str ident'"
proof -
  from assms(3) have "scope @ CHR ''_'' # py_str ident = scope' @ CHR ''_'' # py_str ident'"
    unfolding cache_format_def by (simp only: append.simps list.inject simp_thms)
  with assms(1,2) show ?thesis by (rule split_at_first)
qed

lemma get_cache_key_inj:
  assumes "CHR ''_'' \<notin> set scope" and "CHR ''_'' \<notin> set scope'"
    and "CHR ''_'' \<notin> set (py_str ident)" and "CHR ''_'' \<notin> set (py_str ident')"
    and "CommonThrottle_get_cache_key ident scope r = CommonThrottle_get_cache_key ident' scope' r'"
  shows "scope = scope' \<and> r = r' \<and> py_str ident = py_str ident'"
proof -
  from assms(5) have
    "scope @ CHR ''_'' # (r @ CHR ''_'' # py_str ident) =
     scope' @ CHR ''_'' # (r' @ CHR ''_'' # py_str ident')"
    unfolding CommonThrottle_get_cache_key_def by (simp only: append.simps list.inject simp_thms)
  with assms(1,2) have
    "scope = scope' \<and> r @ CHR ''_'' # py_str ident = r' @ CHR ''_'' # py_str ident'"
    by (rule split_at_first)
  then have a: "scope = scope'"
    and b: "r @ CHR ''_'' # py_str ident = r' @ CHR ''_'' # py_str ident'"
    by simp_all
  from split_at_last [OF assms(3,4) b] a show ?thesis by simp
qed

text \<open>
  Claim C9, as amended. The keys are functions of their inputs: equal scope, identity
  and rate name give equal keys. For scopes without an underscore, equal single-tier
  keys have equal scopes and identities with equal renderings. For scopes and rendered
  identities without an underscore, equal multi-tier keys have equal scopes, equal rate
  names and identities with equal renderings. The rendering is injective on user ids and
  on address strings; the rendering of a user id and the composite scope of a request
  contain no underscore.
\<close>

theorem cache_keys_injective:
  "(CHR ''_'' \<notin> set scope \<and> CHR ''_'' \<notin> set scope'
      \<and> cache_format scope ident = cache_format scope' ident'
      \<longrightarrow> scope = scope' \<and> py_str ident = py_str ident')
   \<and> (CHR ''_'' \<notin> set scope \<and> CHR ''_'' \<notin> set scope'
      \<and> CHR ''_'' \<notin> set (py_str ident) \<and> CHR ''_'' \<notin> set (py_str ident')
      \<and> CommonThrottle_get_cache_key ident scope r = CommonThrottle_get_cache_key ident' scope' r'
      \<longrightarrow> scope = scope' \<and> r = r' \<and> py_str ident = py_str ident')
   \<and> (py_str (IdInt i) = py_str (IdInt j) \<longrightarrow> i = j)
   \<and> (py_str (IdStr a) = py_str (IdStr b) \<longrightarrow> a = b)
   \<and> CHR ''_'' \<notin> set (py_str (IdInt i))
   \<and> CHR ''_'' \<notin> set (CommonThrottle_get_scope request)
   \<and> (scope = scope' \<and> ident = ident' \<and> r = r'
      \<longrightarrow> cache_format scope ident = cache_format scope' ident'
        \<and> CommonThrottle_get_cache_key ident scope r = CommonThrottle_get_cache_key ident' scope' r')"
proof (intro conjI impI)
  assume "CHR ''_'' \<notin> set scope \<and> CHR ''_'' \<notin> set scope'
      \<and> cache_format scope ident = cache_format scope' ident'"
  then have "scope = scope' \<and> py_str ident = py_str ident'"
    by (intro cache_format_inj) simp_all
  then show "scope = scope'" and "py_str ident = py_str ident'" by simp_all
next
  assume "CHR ''_'' \<notin> set scope \<and> CHR ''_'' \<notin> set scope'
      \<and> CHR ''_'' \<notin> set (py_str ident) \<and> CHR ''_'' \<notin> set (py_str ident')
      \<and> CommonThrottle_get_cache_key ident scope r = CommonThrottle_get_cache_key ident' scope' r'"
  then have "scope = scope' \<and> r = r' \<and> py_str ident = py_str ident'"
    by (intro get_cache_key_inj) simp_all
  then show "scope = scope'" and "r = r'" and "py_str ident = py_str ident'" by simp_all
next
  assume "py_str (IdInt i) = py_str (IdInt j)"
  then show "i = j" by (simp add: str_int_inj)
next
  assume "py_str (IdStr a) = py_str (IdStr b)"
  then show "a = b" by simp
next
  show "CHR ''_'' \<notin> set (py_str (IdInt i))" by (simp add: str_int_no_underscore)
next
  show "CHR ''_'' \<notin> set (CommonThrottle_get_scope request)"
    by (simp add: CommonThrottle_get_scope_def)
next
  assume "scope = scope' \<and> ident = ident' \<and> r = r'"
  then show "cache_format scope ident = cache_format scope' ident'"
    and "CommonThrottle_get_cache_key ident scope r = CommonThrottle_get_cache_key ident' scope' r'"
    by simp_all
qed

text \<open>Equal inputs give equal keys, and keys of different scopes or rates differ.\<close>

theorem cache_keys_injective_witness:
  "CHR ''_'' \<notin> set ''user'' \<and> CHR ''_'' \<notin> set ''anon''
   \<and> CHR ''_'' \<notin> set ''user-read'' \<and> CHR ''_'' \<notin> set (py_str (IdInt 5))
   \<and> CHR ''_'' \<notin> set (py_str (IdStr ''1.1.1.1''))
   \<and> cache_format ''user'' (IdInt 5) = cache_format ''user'' (IdInt 5)
   \<and> CommonThrottle_get_cache_key (IdInt 5) ''user-read'' ''5/min'' =
       CommonThrottle_get_cache_key (IdInt 5) ''user-read'' ''5/min''
   \<and> py_str (IdInt 5) = py_str (IdInt 5) \<and> py_str (IdStr ''a'') = py_str (IdStr ''a'')
   \<and> cache_format ''user'' (IdStr ''1.1.1.1'') \<noteq> cache_format ''anon'' (IdStr ''1.1.1.1'')
   \<and> CommonThrottle_get_cache_key (IdStr ''1.1.1.1'') ''anon-read'' ''5/min'' \<noteq>
       CommonThrottle_get_cache_key (IdStr ''1.1.1.1'') ''anon-read'' ''100/day''"
  using cache_keys_injective
      [of "''user''" "''user''" "IdInt 5" "IdInt 5" "''5/min''" "''5/min''" 5 5 "''a''" "''a''"
          example_request]
    cache_keys_injective
      [of "''user-read''" "''user-read''" "IdInt 5" "IdInt 5" "''5/min''" "''5/min''" 5 5
          "''a''" "''a''" example_request]
    cache_keys_injective
      [of "''user''" "''anon''" "IdStr ''1.1.1.1''" "IdStr ''1.1.1.1''" "''5/min''" "''5/min''" 5 5
          "''a''" "''a''" example_request]
    cache_keys_injective
      [of "''anon-read''" "''anon-read''" "IdStr ''1.1.1.1''" "IdStr ''1.1.1.1''" "''5/min''"
          "''100/day''" 5 5 "''a''" "''a''" example_request]
  by auto

text \<open>
  Two different pairs of a scope and an identity with one single-tier key, and two
  different triples with one multi-tier key: the underscore that separates the parts
  may also occur inside them.
\<close>

theorem cache_keys_injective_counterexample:
  "(''user_list'', IdStr ''1.1.1.1'') \<noteq> (''user'', IdStr ''list_1.1.1.1'')
   \<and> cache_format ''user_list'' (IdStr ''1.1.1.1'') = cache_format ''user'' (IdStr ''list_1.1.1.1'')
   \<and> (''anon-read'', IdStr ''1_2'', ''5/m'') \<noteq> (''anon-read'', IdStr ''2'', ''5/m_1'')
   \<and> CommonThrottle_get_cache_key (IdStr ''1_2'') ''anon-read'' ''5/m'' =
       CommonThrottle_get_cache_key (IdStr ''2'') ''anon-read'' ''5/m_1''"
  by (simp add: cache_format_def CommonThrottle_get_cache_key_def)

subsection \<open>Whitelist matching\<close>























end
